theory Spec2Isabelle
  imports Main "HOL-Library.Word"
begin

section \<open>Digital Library API: values, identifiers and the document store\<close>

text \<open>
  The service (\<^verbatim>\<open>main.py\<close>) keeps three collections of schema-less documents
  (\<^verbatim>\<open>book\<close>, \<^verbatim>\<open>member\<close>, \<^verbatim>\<open>loan\<close>) in a document store. A document is a
  dictionary from field names to dynamically typed values; its primary key \<^verbatim>\<open>_id\<close> is a
  12-byte object identifier. Every handler is modelled as a function from the store (and
  the inputs the environment supplies: the clock reading, the identifier the store
  generates) to a result and the store afterwards. The store is returned on failure as
  well, since a handler can fail after it has written.
\<close>

subsection \<open>Object identifiers\<close>

text \<open>
  A \<^verbatim>\<open>bson.ObjectId\<close> is 12 bytes, here a 96-bit word. \<^verbatim>\<open>str(oid)\<close> is its 24
  lower-case hexadecimal digits; \<^verbatim>\<open>ObjectId(s)\<close> accepts exactly the strings of 24
  hexadecimal digits (either case).
\<close>

type_synonym oid = "96 word"

definition hexdigit :: "nat \<Rightarrow> char" where
  "hexdigit d = ''0123456789abcdef'' ! d"

primrec hex_of_nat :: "nat \<Rightarrow> nat \<Rightarrow> string" where
  "hex_of_nat 0 n = []"
| "hex_of_nat (Suc w) n = hex_of_nat w (n div 16) @ [hexdigit (n mod 16)]"

definition str_oid :: "oid \<Rightarrow> string" where
  "str_oid k = hex_of_nat 24 (unat k)"

definition hexval :: "char \<Rightarrow> nat option" where
  "hexval c = map_of
     [(CHR ''0'', 0), (CHR ''1'', 1), (CHR ''2'', 2), (CHR ''3'', 3), (CHR ''4'', 4),
      (CHR ''5'', 5), (CHR ''6'', 6), (CHR ''7'', 7), (CHR ''8'', 8), (CHR ''9'', 9),
      (CHR ''a'', 10), (CHR ''b'', 11), (CHR ''c'', 12), (CHR ''d'', 13), (CHR ''e'', 14),
      (CHR ''f'', 15),
      (CHR ''A'', 10), (CHR ''B'', 11), (CHR ''C'', 12), (CHR ''D'', 13), (CHR ''E'', 14),
      (CHR ''F'', 15)] c"

fun oid_of_hex :: "oid \<Rightarrow> string \<Rightarrow> oid option" where
  "oid_of_hex acc [] = Some acc"
| "oid_of_hex acc (c # cs) =
     (case hexval c of None \<Rightarrow> None | Some d \<Rightarrow> oid_of_hex (16 * acc + of_nat d) cs)"

definition ObjectId :: "string \<Rightarrow> oid option" where
  "ObjectId s = (if length s = 24 then oid_of_hex 0 s else None)"

subsection \<open>Timestamps and dates\<close>

text \<open>
  A \<^verbatim>\<open>datetime\<close> in UTC is a calendar day, counted as Python's proleptic Gregorian
  ordinal (\<^verbatim>\<open>date.toordinal\<close>: 1 is 0001-01-01, 3652059 is 9999-12-31), and the
  microseconds since midnight. \<^verbatim>\<open>now + timedelta(days=d)\<close> moves the day and keeps the
  time of day; it raises \<^verbatim>\<open>OverflowError\<close> when the day leaves the supported range
  (which also covers \<^verbatim>\<open>timedelta\<close>'s own limit of 999999999 days).
\<close>

record datetime =
  ordinal :: int
  micros :: nat

definition MAXORDINAL :: int where
  "MAXORDINAL = 3652059"

definition add_days :: "datetime \<Rightarrow> int \<Rightarrow> datetime option" where
  "add_days t d =
     (if 0 < ordinal t + d \<and> ordinal t + d \<le> MAXORDINAL
      then Some (t\<lparr>ordinal := ordinal t + d\<rparr>) else None)"

definition date_of :: "datetime \<Rightarrow> int" where
  "date_of t = ordinal t"

definition DAYS_IN_MONTH :: "int list" where
  "DAYS_IN_MONTH = [-1, 31, 28, 31, 30, 31, 30, 31, 31, 30, 31, 30, 31]"

definition DAYS_BEFORE_MONTH :: "int list" where
  "DAYS_BEFORE_MONTH = [-1, 0, 31, 59, 90, 120, 151, 181, 212, 243, 273, 304, 334]"

definition ord2ymd :: "int \<Rightarrow> int \<times> int \<times> int" where
  "ord2ymd n0 =
     (let n = n0 - 1;
          n400 = n div 146097; n = n mod 146097;
          n100 = n div 36524; n = n mod 36524;
          n4 = n div 1461; n = n mod 1461;
          n1 = n div 365; n = n mod 365;
          year = n400 * 400 + 1 + n100 * 100 + n4 * 4 + n1
      in if n1 = 4 \<or> n100 = 4 then (year - 1, 12, 31)
         else
           let leapyear = (n1 = 3 \<and> (n4 \<noteq> 24 \<or> n100 = 3));
               month = (n + 50) div 32;
               preceding = DAYS_BEFORE_MONTH ! nat month
                             + (if month > 2 \<and> leapyear then 1 else 0)
           in if preceding > n
              then let month' = month - 1;
                       preceding' = preceding - (DAYS_IN_MONTH ! nat month'
                                      + (if month' = 2 \<and> leapyear then 1 else 0))
                   in (year, month', n - preceding' + 1)
              else (year, month, n - preceding + 1))"

definition decdigit :: "nat \<Rightarrow> char" where
  "decdigit d = ''0123456789'' ! d"

primrec dec_of_nat :: "nat \<Rightarrow> nat \<Rightarrow> string" where
  "dec_of_nat 0 n = []"
| "dec_of_nat (Suc w) n = dec_of_nat w (n div 10) @ [decdigit (n mod 10)]"

definition isoformat :: "int \<Rightarrow> string" where
  "isoformat n =
     (case ord2ymd n of (y, m, d) \<Rightarrow>
        dec_of_nat 4 (nat y) @ ''-'' @ dec_of_nat 2 (nat m) @ ''-'' @ dec_of_nat 2 (nat d))"

subsection \<open>Documents, collections, errors\<close>

datatype val =
    VNull
  | VBool bool
  | VInt int
  | VStr string
  | VList "val list"
  | VTime datetime
  | VOid oid

type_synonym doc = "string \<rightharpoonup> val"

text \<open>
  The values are those the handlers read and write: \<^verbatim>\<open>None\<close>, booleans, integers
  (Python's, unbounded), strings, lists, timestamps and object identifiers. A collection
  lists its documents in insertion order, each under its \<^verbatim>\<open>_id\<close>; a database maps the
  name of a collection to the collection (\<^verbatim>\<open>db[name]\<close>).
\<close>

type_synonym collection = "(oid \<times> doc) list"

type_synonym database = "string \<Rightarrow> collection"

text \<open>
  \<^verbatim>\<open>HTTPException(status_code, detail)\<close> is what the handlers raise themselves; any
  other exception that escapes a handler (a \<^verbatim>\<open>TypeError\<close>, an \<^verbatim>\<open>OverflowError\<close>,
  an error of the store) is \<open>Unhandled\<close> with the exception's class name.
\<close>

datatype error = HTTPException nat string | Unhandled string

type_synonym 'a outcome = "(error + 'a) \<times> database"

text \<open>
  \<^verbatim>\<open>ObjectId.is_valid(x)\<close> on a value read from a document (or on \<^verbatim>\<open>None\<close> for an
  absent field): an object identifier is valid, a string is valid when \<^verbatim>\<open>ObjectId\<close>
  accepts it, everything else is not. \<open>to_oid\<close> is the identifier \<^verbatim>\<open>ObjectId(x)\<close>
  then denotes.
\<close>

fun to_oid :: "val option \<Rightarrow> oid option" where
  "to_oid (Some (VStr s)) = ObjectId s"
| "to_oid (Some (VOid k)) = Some k"
| "to_oid _ = None"

definition is_valid :: "val option \<Rightarrow> bool" where
  "is_valid x = (to_oid x \<noteq> None)"

text \<open>\<^verbatim>\<open>db[collection].find_one({"_id": k})\<close>.\<close>

definition find_one :: "collection \<Rightarrow> oid \<Rightarrow> doc option" where
  "find_one c k = map_of c k"

text \<open>
  \<^verbatim>\<open>db[collection].update_one({"_id": k}, update)\<close>: the update is applied to the
  document whose \<^verbatim>\<open>_id\<close> is \<open>k\<close>; no document is changed when none matches. The
  store rejects an update it cannot apply (\<open>None\<close>).
\<close>

fun update_one :: "collection \<Rightarrow> oid \<Rightarrow> (doc \<Rightarrow> doc option) \<Rightarrow> collection option" where
  "update_one [] k u = Some []"
| "update_one ((k', d) # c) k u =
     (if k' = k then (case u d of None \<Rightarrow> None | Some d' \<Rightarrow> Some ((k', d') # c))
      else map_option (\<lambda>c'. (k', d) # c') (update_one c k u))"

text \<open>
  The update \<^verbatim>\<open>{"$inc": {f: a}}\<close>: adds \<open>a\<close> to an integer field, creates an absent
  field with value \<open>a\<close>, and is rejected on a field of any other type.
\<close>

definition inc_field :: "string \<Rightarrow> int \<Rightarrow> doc \<Rightarrow> doc option" where
  "inc_field f a d =
     (case d f of
        None \<Rightarrow> Some (d(f \<mapsto> VInt a))
      | Some (VInt n) \<Rightarrow> Some (d(f \<mapsto> VInt (n + a)))
      | Some _ \<Rightarrow> None)"

text \<open>The update \<^verbatim>\<open>{"$set": {f1: v1, ...}}\<close>: writes every listed field.\<close>

definition set_fields :: "(string \<times> val) list \<Rightarrow> doc \<Rightarrow> doc option" where
  "set_fields fvs d = Some (d ++ map_of fvs)"

text \<open>
  Modelled from the spec: \<^verbatim>\<open>create_document\<close> of \<^verbatim>\<open>database.py\<close>, which is not among
  the sources. The spec (4.1): ``\<^verbatim>\<open>create(collection, record) -> id\<close>: inserts record,
  returns new identifier as a string. No validation beyond what the caller already
  performed''; the identifier is ``a store-generated unique identifier''. The identifier
  the store generates is the input \<open>new_id\<close>; the store's unique index on \<^verbatim>\<open>_id\<close>
  refuses one that is already in the collection.
\<close>

definition create_document :: "database \<Rightarrow> string \<Rightarrow> doc \<Rightarrow> oid \<Rightarrow> string outcome" where
  "create_document db collection data new_id =
     (if new_id \<in> fst ` set (db collection)
      then (Inl (Unhandled ''DuplicateKeyError''), db)
      else (Inr (str_oid new_id), db(collection := db collection @ [(new_id, data)])))"

text \<open>
  Modelled from the spec: \<^verbatim>\<open>get_documents\<close> of \<^verbatim>\<open>database.py\<close>, which is not among
  the sources. The spec (4.1): ``\<^verbatim>\<open>list(collection, filter?) -> sequence of records\<close>:
  returns all matching records (filter defaults to "match all")''. A filter
  \<^verbatim>\<open>{f: v}\<close> matches the documents whose field \<open>f\<close> is exactly \<open>v\<close>. The records come
  with their \<^verbatim>\<open>_id\<close>.
\<close>

definition matches :: "(string \<times> val) list \<Rightarrow> doc \<Rightarrow> bool" where
  "matches flt d = list_all (\<lambda>(f, v). d f = Some v) flt"

definition get_documents :: "database \<Rightarrow> string \<Rightarrow> (string \<times> val) list \<Rightarrow> (oid \<times> doc) list" where
  "get_documents db collection flt = filter (\<lambda>(k, d). matches flt d) (db collection)"

section \<open>Request bodies\<close>

text \<open>
  The request models of \<^verbatim>\<open>main.py\<close>. A record is the body after validation, with
  the defaults of the model filled in. The only constraints the models declare are the
  field types: \<^verbatim>\<open>email: str\<close> and \<^verbatim>\<open>copies_total: int\<close> accept every string and every
  integer.
\<close>

record BookIn =
  title :: string
  author :: string
  isbn :: "string option"
  published_year :: "int option"
  categories :: "string list"
  description :: "string option"
  copies_total :: int

record MemberIn =
  name :: string
  email :: string
  membership_id :: "string option"
  phone :: "string option"

record LoanIn =
  book_id :: string
  member_id :: string
  days :: int

text \<open>A loan request whose body may leave \<^verbatim>\<open>days\<close> out (\<^verbatim>\<open>days: int = 14\<close>).\<close>

definition LoanIn_body :: "string \<Rightarrow> string \<Rightarrow> int option \<Rightarrow> LoanIn" where
  "LoanIn_body b m d =
     \<lparr>book_id = b, member_id = m, days = (case d of None \<Rightarrow> 14 | Some n \<Rightarrow> n)\<rparr>"

definition opt_str :: "string option \<Rightarrow> val" where
  "opt_str x = (case x of None \<Rightarrow> VNull | Some s \<Rightarrow> VStr s)"

definition opt_int :: "int option \<Rightarrow> val" where
  "opt_int x = (case x of None \<Rightarrow> VNull | Some n \<Rightarrow> VInt n)"

text \<open>\<^verbatim>\<open>payload.model_dump()\<close>.\<close>

definition BookIn_model_dump :: "BookIn \<Rightarrow> doc" where
  "BookIn_model_dump p =
     [''title'' \<mapsto> VStr (title p),
      ''author'' \<mapsto> VStr (author p),
      ''isbn'' \<mapsto> opt_str (isbn p),
      ''published_year'' \<mapsto> opt_int (published_year p),
      ''categories'' \<mapsto> VList (map VStr (categories p)),
      ''description'' \<mapsto> opt_str (description p),
      ''copies_total'' \<mapsto> VInt (copies_total p)]"

definition MemberIn_model_dump :: "MemberIn \<Rightarrow> doc" where
  "MemberIn_model_dump p =
     [''name'' \<mapsto> VStr (name p),
      ''email'' \<mapsto> VStr (email p),
      ''membership_id'' \<mapsto> opt_str (membership_id p),
      ''phone'' \<mapsto> opt_str (phone p)]"

section \<open>The handlers\<close>

subsection \<open>Books and members\<close>

definition add_book :: "database \<Rightarrow> BookIn \<Rightarrow> oid \<Rightarrow> doc outcome" where
  "add_book db payload new_id =
     (let data = BookIn_model_dump payload;
          data = data(''copies_available'' \<mapsto> VInt (copies_total payload))
      in case create_document db ''book'' data new_id of
           (Inl e, db') \<Rightarrow> (Inl e, db')
         | (Inr new_book_id, db') \<Rightarrow> (Inr [''id'' \<mapsto> VStr new_book_id], db'))"

definition add_member :: "database \<Rightarrow> MemberIn \<Rightarrow> oid \<Rightarrow> doc outcome" where
  "add_member db payload new_id =
     (case create_document db ''member'' (MemberIn_model_dump payload) new_id of
        (Inl e, db') \<Rightarrow> (Inl e, db')
      | (Inr new_member_id, db') \<Rightarrow> (Inr [''id'' \<mapsto> VStr new_member_id], db'))"

subsection \<open>Loans\<close>

text \<open>\<^verbatim>\<open>_get_by_id\<close>; the document comes with its \<^verbatim>\<open>_id\<close>.\<close>

definition get_by_id :: "database \<Rightarrow> string \<Rightarrow> string \<Rightarrow> error + (oid \<times> doc)" where
  "get_by_id db collection id_str =
     (if \<not> is_valid (Some (VStr id_str)) then Inl (HTTPException 400 ''Invalid id'')
      else case ObjectId id_str of
             None \<Rightarrow> Inl (HTTPException 400 ''Invalid id'')
           | Some k \<Rightarrow>
               (case find_one (db collection) k of
                  None \<Rightarrow> Inl (HTTPException 404 (collection @ '' not found''))
                | Some d \<Rightarrow> Inr (k, d)))"

text \<open>
  Python's \<^verbatim>\<open>v <= 0\<close> on a value read from a document: integers compare, booleans
  compare as 0 and 1, and every other type raises \<^verbatim>\<open>TypeError\<close>.
\<close>

definition le_zero :: "val \<Rightarrow> error + bool" where
  "le_zero v =
     (case v of
        VInt n \<Rightarrow> Inr (n \<le> 0)
      | VBool b \<Rightarrow> Inr (\<not> b)
      | _ \<Rightarrow> Inl (Unhandled ''TypeError''))"

definition create_loan :: "database \<Rightarrow> LoanIn \<Rightarrow> datetime \<Rightarrow> oid \<Rightarrow> doc outcome" where
  "create_loan db payload now new_id =
     (case get_by_id db ''book'' (book_id payload) of
        Inl e \<Rightarrow> (Inl e, db)
      | Inr (bk, book) \<Rightarrow>
          (case le_zero (case book ''copies_available'' of None \<Rightarrow> VInt 0 | Some v \<Rightarrow> v) of
             Inl e \<Rightarrow> (Inl e, db)
           | Inr no_copies \<Rightarrow>
               if no_copies then (Inl (HTTPException 400 ''No copies available''), db)
               else
                 (case get_by_id db ''member'' (member_id payload) of
                    Inl e \<Rightarrow> (Inl e, db)
                  | Inr member \<Rightarrow>
                      (case add_days now (days payload) of
                         None \<Rightarrow> (Inl (Unhandled ''OverflowError''), db)
                       | Some due \<Rightarrow>
                           let loan_data =
                                 [''book_id'' \<mapsto> VStr (book_id payload),
                                  ''member_id'' \<mapsto> VStr (member_id payload),
                                  ''loan_date'' \<mapsto> VTime now,
                                  ''due_date'' \<mapsto> VStr (isoformat (date_of due)),
                                  ''status'' \<mapsto> VStr ''borrowed'']
                           in (case create_document db ''loan'' loan_data new_id of
                                 (Inl e, db1) \<Rightarrow> (Inl e, db1)
                               | (Inr loan_id, db1) \<Rightarrow>
                                   (case update_one (db1 ''book'') bk
                                           (inc_field ''copies_available'' (- 1)) of
                                      None \<Rightarrow> (Inl (Unhandled ''WriteError''), db1)
                                    | Some c \<Rightarrow>
                                        (Inr [''id'' \<mapsto> VStr loan_id],
                                         db1(''book'' := c))))))))"

definition return_book :: "database \<Rightarrow> string \<Rightarrow> datetime \<Rightarrow> doc outcome" where
  "return_book db loan_id now =
     (case get_by_id db ''loan'' loan_id of
        Inl e \<Rightarrow> (Inl e, db)
      | Inr (lk, loan) \<Rightarrow>
          if loan ''status'' = Some (VStr ''returned'')
          then (Inl (HTTPException 400 ''Already returned''), db)
          else
            (case update_one (db ''loan'') lk
                    (set_fields [(''status'', VStr ''returned''), (''return_date'', VTime now)]) of
               None \<Rightarrow> (Inl (Unhandled ''WriteError''), db)
             | Some c \<Rightarrow>
                 let db1 = db(''loan'' := c);
                     stored_book_id = loan ''book_id''
                 in if is_valid stored_book_id
                    then (case to_oid stored_book_id of
                            None \<Rightarrow> (Inl (Unhandled ''InvalidId''), db1)
                          | Some bk \<Rightarrow>
                              (case update_one (db1 ''book'') bk
                                      (inc_field ''copies_available'' 1) of
                                 None \<Rightarrow> (Inl (Unhandled ''WriteError''), db1)
                               | Some c' \<Rightarrow>
                                   (Inr [''status'' \<mapsto> VStr ''ok''], db1(''book'' := c'))))
                    else (Inr [''status'' \<mapsto> VStr ''ok''], db1)))"

definition list_loans :: "database \<Rightarrow> string option \<Rightarrow> doc list" where
  "list_loans db status =
     (let filter_dict =
            (case status of
               None \<Rightarrow> []
             | Some s \<Rightarrow> if s = [] then [] else [(''status'', VStr s)]);
          loans = get_documents db ''loan'' filter_dict
      in map (\<lambda>(k, l). l(''_id'' \<mapsto> VStr (str_oid k))) loans)"

subsection \<open>Sequences of requests\<close>

text \<open>
  The requests that write to the store, each with what the environment supplies to it.
  \<open>handle\<close> is the store after a request, whether the request succeeded or failed;
  \<open>run\<close> serves a list of requests one after the other, starting from a given store.
\<close>

datatype request =
    AddBook BookIn oid
  | AddMember MemberIn oid
  | CreateLoan LoanIn datetime oid
  | ReturnBook string datetime

fun handle :: "database \<Rightarrow> request \<Rightarrow> database" where
  "handle db (AddBook p i) = snd (add_book db p i)"
| "handle db (AddMember p i) = snd (add_member db p i)"
| "handle db (CreateLoan p t i) = snd (create_loan db p t i)"
| "handle db (ReturnBook l t) = snd (return_book db l t)"

definition run :: "database \<Rightarrow> request list \<Rightarrow> database" where
  "run db rs = foldl handle db rs"

definition empty_db :: database where
  "empty_db = (\<lambda>_. [])"

text \<open>The \<^verbatim>\<open>copies_available\<close> and \<^verbatim>\<open>copies_total\<close> fields of the book stored under \<open>k\<close>.\<close>

definition book_field :: "database \<Rightarrow> oid \<Rightarrow> string \<Rightarrow> val option" where
  "book_field db k f = (case find_one (db ''book'') k of None \<Rightarrow> None | Some b \<Rightarrow> b f)"

subsection \<open>Invariants of the store\<close>

text \<open>Every loan whose status is \<^verbatim>\<open>"returned"\<close> carries a \<^verbatim>\<open>return_date\<close> timestamp.\<close>

definition returned_dated :: "database \<Rightarrow> bool" where
  "returned_dated db \<longleftrightarrow>
     (\<forall>(k, l) \<in> set (db ''loan'').
        l ''status'' = Some (VStr ''returned'') \<longrightarrow> (\<exists>t. l ''return_date'' = Some (VTime t)))"

text \<open>
  The loans of book \<open>k\<close> that are out: not returned, and naming \<open>k\<close>. In a consistent
  store the book identifiers are unique, only stored books are on loan, and every book
  has integer counts with \<open>copies_available\<close> non-negative and
  \<open>copies_available + loans out = copies_total\<close>.
\<close>

definition borrowed_count :: "database \<Rightarrow> oid \<Rightarrow> nat" where
  "borrowed_count db k =
     length (filter (\<lambda>(lk, l). l ''status'' \<noteq> Some (VStr ''returned'')
                              \<and> to_oid (l ''book_id'') = Some k) (db ''loan''))"

definition copies_consistent :: "database \<Rightarrow> bool" where
  "copies_consistent db \<longleftrightarrow>
     distinct (map fst (db ''book''))
     \<and> (\<forall>k. k \<notin> fst ` set (db ''book'') \<longrightarrow> borrowed_count db k = 0)
     \<and> (\<forall>(k, b) \<in> set (db ''book'').
          \<exists>total available.
            b ''copies_total'' = Some (VInt total)
          \<and> b ''copies_available'' = Some (VInt available)
          \<and> 0 \<le> available
          \<and> available + int (borrowed_count db k) = total)"

fun nonneg_total :: "request \<Rightarrow> bool" where
  "nonneg_total (AddBook p i) = (0 \<le> copies_total p)"
| "nonneg_total _ = True"

section \<open>Example data\<close>

text \<open>The book and the member of the spec's examples, and stores that hold them.\<close>

definition dune :: BookIn where
  "dune = \<lparr>title = ''Dune'', author = ''Herbert'', isbn = None, published_year = None,
           categories = [], description = None, copies_total = 1\<rparr>"

definition ann :: MemberIn where
  "ann = \<lparr>name = ''Ann'', email = ''ann@example.org'', membership_id = None, phone = None\<rparr>"

definition sold_out :: database where
  "sold_out =
     empty_db(''book'' := [(10, (BookIn_model_dump dune)(''copies_available'' \<mapsto> VInt 0))])"

definition library :: database where
  "library = run empty_db [AddBook dune 10, AddMember ann 11]"

definition borrow :: LoanIn where
  "borrow = LoanIn_body ''00000000000000000000000a'' ''00000000000000000000000b'' (Some 7)"

definition noon :: datetime where
  "noon = \<lparr>ordinal = 738910, micros = 43200000000\<rparr>"

definition on_loan :: database where
  "on_loan = run library [CreateLoan borrow noon 12]"

definition stray :: database where
  "stray = on_loan(''loan'' :=
     [(12, [''book_id'' \<mapsto> VStr ''not-an-id'', ''status'' \<mapsto> VStr ''borrowed''])])"

definition given_back :: database where
  "given_back = run on_loan [ReturnBook ''00000000000000000000000c'' noon]"

definition bob :: MemberIn where
  "bob = \<lparr>name = ''Bob'', email = ''not-an-email'', membership_id = None, phone = None\<rparr>"

section \<open>Properties\<close>

subsection \<open>Identifiers and the store\<close>

lemma hexval_hexdigit_upto: "\<forall>d \<in> set [0..<16]. hexval (hexdigit d) = Some d"
  by code_simp

lemma hexval_hexdigit: "d < 16 \<Longrightarrow> hexval (hexdigit d) = Some d"
  using hexval_hexdigit_upto by simp

lemma oid_of_hex_snoc:
  "oid_of_hex acc (xs @ [c]) =
     (case oid_of_hex acc xs of
        None \<Rightarrow> None
      | Some a \<Rightarrow> (case hexval c of None \<Rightarrow> None | Some d \<Rightarrow> Some (16 * a + of_nat d)))"
  by (induction xs arbitrary: acc) (auto split: option.splits)

lemma oid_of_hex_hex_of_nat:
  "oid_of_hex acc (hex_of_nat w n) = Some (acc * 16 ^ w + of_nat (n mod 16 ^ w))"
proof (induction w arbitrary: n)
  case 0
  show ?case by simp
next
  case (Suc w)
  have d: "n mod 16 < 16" by simp
  have e: "n mod (16 * 16 ^ w) = 16 * ((n div 16) mod 16 ^ w) + n mod 16"
    by (simp add: mod_mult2_eq)
  show ?case
    by (simp add: oid_of_hex_snoc Suc hexval_hexdigit [OF d] e algebra_simps)
qed

lemma length_hex_of_nat: "length (hex_of_nat w n) = w"
  by (induction w arbitrary: n) auto

text \<open>Parsing the string form of an identifier gives the identifier back.\<close>

lemma ObjectId_str_oid: "ObjectId (str_oid k) = Some k"
proof -
  have "unat k < 2 ^ 96" using unsigned_less [of k] by simp
  then have "unat k mod 16 ^ 24 = unat k" by simp
  then show ?thesis
    by (simp add: ObjectId_def str_oid_def length_hex_of_nat oid_of_hex_hex_of_nat)
qed

lemma ObjectId_examples:
  "ObjectId ''00000000000000000000000a'' = Some 10"
  "ObjectId ''00000000000000000000000b'' = Some 11"
  "ObjectId ''00000000000000000000000c'' = Some 12"
  "ObjectId ''not-an-id'' = None"
  by code_simp+

lemma str_oid_examples:
  "str_oid 10 = ''00000000000000000000000a''"
  "str_oid 11 = ''00000000000000000000000b''"
  "str_oid 12 = ''00000000000000000000000c''"
  by code_simp+

lemma get_by_id_Inr:
  "get_by_id db collection id_str = Inr (k, d) \<longleftrightarrow>
     ObjectId id_str = Some k \<and> find_one (db collection) k = Some d"
  by (auto simp: get_by_id_def is_valid_def split: option.splits)

lemma update_one_keys: "update_one c k u = Some c' \<Longrightarrow> map fst c' = map fst c"
  by (induction c arbitrary: c') (auto split: if_splits option.splits)

lemma update_one_find_one:
  "update_one c k u = Some c' \<Longrightarrow>
     find_one c' k' = (if k' = k then (case find_one c k of None \<Rightarrow> None | Some d \<Rightarrow> u d)
                       else find_one c k')"
  by (induction c arbitrary: c') (auto simp: find_one_def split: if_splits option.splits)

lemma update_one_present:
  "find_one c k = Some d \<Longrightarrow> u d = Some d' \<Longrightarrow> \<exists>c'. update_one c k u = Some c'"
  by (induction c) (auto simp: find_one_def split: if_splits)

lemma update_one_applied:
  "update_one c k u = Some c' \<Longrightarrow> find_one c k = Some d \<Longrightarrow> \<exists>d'. u d = Some d'"
  by (induction c arbitrary: c') (auto simp: find_one_def split: if_splits option.splits)

lemma update_one_set:
  "update_one c k u = Some c' \<Longrightarrow> (k', d') \<in> set c' \<Longrightarrow>
     (k', d') \<in> set c \<or> (\<exists>d. (k', d) \<in> set c \<and> u d = Some d')"
proof (induction c arbitrary: c')
  case Nil
  then show ?case by simp
next
  case (Cons a c)
  obtain k1 d1 where a: "a = (k1, d1)" by (cases a)
  show ?case
  proof (cases "k1 = k")
    case True
    with Cons.prems a obtain d2 where "u d1 = Some d2" "c' = (k1, d2) # c"
      by (auto split: option.splits)
    with Cons.prems(2) a show ?thesis by auto
  next
    case False
    with Cons.prems a obtain c1 where c1: "update_one c k u = Some c1" "c' = (k1, d1) # c1"
      by auto
    with Cons.prems(2) have "(k', d') = (k1, d1) \<or> (k', d') \<in> set c1" by simp
    with Cons.IH [OF c1(1)] a show ?thesis by auto
  qed
qed

lemma update_one_count:
  "update_one c k u = Some c' \<Longrightarrow> find_one c k = Some d \<Longrightarrow> u d = Some d' \<Longrightarrow>
     length (filter P c') + (if P (k, d) then 1 else 0)
       = length (filter P c) + (if P (k, d') then 1 else 0)"
  by (induction c arbitrary: c') (auto simp: find_one_def split: if_splits option.splits)

lemma find_one_distinct:
  "distinct (map fst c) \<Longrightarrow> (find_one c k = Some d) = ((k, d) \<in> set c)"
  by (simp add: find_one_def)

lemma find_one_mem: "find_one c k = Some d \<Longrightarrow> (k, d) \<in> set c"
  by (simp add: find_one_def map_of_SomeD)

lemma find_one_keys: "find_one c k = Some d \<Longrightarrow> k \<in> fst ` set c"
  by (force dest: find_one_mem)

lemma find_one_append_fresh:
  "k \<notin> fst ` set c \<Longrightarrow>
     find_one (c @ [(k, d)]) k' = (if k' = k then Some d else find_one c k')"
  by (induction c) (auto simp: find_one_def)

lemma le_zero_Inr_False:
  "le_zero v = Inr False \<longleftrightarrow> (\<exists>n. v = VInt n \<and> 0 < n) \<or> v = VBool True"
  by (cases v) (auto simp: le_zero_def)

lemma inc_field_Some:
  "inc_field f a d = Some d' \<longleftrightarrow>
     (d f = None \<and> d' = d(f \<mapsto> VInt a))
     \<or> (\<exists>n. d f = Some (VInt n) \<and> d' = d(f \<mapsto> VInt (n + a)))"
  by (auto simp: inc_field_def split: option.splits val.splits)

subsection \<open>What a successful request has done\<close>

lemma create_loan_Inr:
  assumes "fst (create_loan db payload now new_id) = Inr resp"
  shows "\<exists>bk book n c.
           ObjectId (book_id payload) = Some bk \<and>
           find_one (db ''book'') bk = Some book \<and>
           book ''copies_available'' = Some (VInt n) \<and> 0 < n \<and>
           new_id \<notin> fst ` set (db ''loan'') \<and>
           update_one (db ''book'') bk (inc_field ''copies_available'' (- 1)) = Some c \<and>
           resp = [''id'' \<mapsto> VStr (str_oid new_id)] \<and>
           snd (create_loan db payload now new_id) =
             db(''loan'' := db ''loan'' @
                  [(new_id,
                    [''book_id'' \<mapsto> VStr (book_id payload),
                     ''member_id'' \<mapsto> VStr (member_id payload),
                     ''loan_date'' \<mapsto> VTime now,
                     ''due_date'' \<mapsto> VStr (isoformat (date_of now + days payload)),
                     ''status'' \<mapsto> VStr ''borrowed''])],
                ''book'' := c)"
proof -
  obtain bk book where g: "get_by_id db ''book'' (book_id payload) = Inr (bk, book)"
    using assms by (auto simp: create_loan_def split: sum.splits)
  then have b: "ObjectId (book_id payload) = Some bk" "find_one (db ''book'') bk = Some book"
    by (simp_all add: get_by_id_Inr)
  have lz: "le_zero (case book ''copies_available'' of None \<Rightarrow> VInt 0 | Some v \<Rightarrow> v)
              = Inr False"
    using assms g by (auto simp: create_loan_def split: sum.splits if_splits)
  obtain member where m: "get_by_id db ''member'' (member_id payload) = Inr member"
    using assms g lz by (auto simp: create_loan_def split: sum.splits)
  obtain due where due: "add_days now (days payload) = Some due"
    using assms g lz m by (auto simp: create_loan_def split: option.splits)
  then have dd: "date_of due = date_of now + days payload"
    by (auto simp: add_days_def date_of_def split: if_splits)
  have fresh: "new_id \<notin> fst ` set (db ''loan'')"
    using assms g lz m due
    by (auto simp: create_loan_def create_document_def Let_def split: sum.splits if_splits)
  obtain c where c: "update_one (db ''book'') bk (inc_field ''copies_available'' (- 1)) = Some c"
    using assms g lz m due fresh
    by (auto simp: create_loan_def create_document_def Let_def split: sum.splits option.splits)
  have bn: "\<exists>n. book ''copies_available'' = Some (VInt n) \<and> 0 < n"
  proof -
    from update_one_applied [OF c b(2)]
    obtain d' where "inc_field ''copies_available'' (- 1) book = Some d'" by blast
    then have "book ''copies_available'' = None
                 \<or> (\<exists>n. book ''copies_available'' = Some (VInt n))"
      by (auto simp: inc_field_Some)
    with lz show ?thesis
      by (auto simp: le_zero_Inr_False le_zero_def)
  qed
  have s: "snd (create_loan db payload now new_id) =
             db(''loan'' := db ''loan'' @
                  [(new_id,
                    [''book_id'' \<mapsto> VStr (book_id payload),
                     ''member_id'' \<mapsto> VStr (member_id payload),
                     ''loan_date'' \<mapsto> VTime now,
                     ''due_date'' \<mapsto> VStr (isoformat (date_of now + days payload)),
                     ''status'' \<mapsto> VStr ''borrowed''])],
                ''book'' := c)"
    using g lz m due fresh c dd
    by (simp add: create_loan_def create_document_def Let_def)
  have r: "resp = [''id'' \<mapsto> VStr (str_oid new_id)]"
    using assms g lz m due fresh c
    by (simp add: create_loan_def create_document_def Let_def)
  show ?thesis using b bn fresh c r s by blast
qed

lemma set_fields_returned:
  "set_fields [(''status'', VStr ''returned''), (''return_date'', VTime now)] d =
     Some (d(''status'' \<mapsto> VStr ''returned'', ''return_date'' \<mapsto> VTime now))"
  by (auto simp: set_fields_def fun_eq_iff map_add_def)

lemma return_book_Inr:
  assumes "fst (return_book db loan_id now) = Inr ack"
  shows "\<exists>lk loan c.
           ObjectId loan_id = Some lk \<and>
           find_one (db ''loan'') lk = Some loan \<and>
           loan ''status'' \<noteq> Some (VStr ''returned'') \<and>
           update_one (db ''loan'') lk
             (set_fields [(''status'', VStr ''returned''), (''return_date'', VTime now)]) = Some c \<and>
           ack = [''status'' \<mapsto> VStr ''ok''] \<and>
           (case to_oid (loan ''book_id'') of
              None \<Rightarrow> snd (return_book db loan_id now) = db(''loan'' := c)
            | Some bk \<Rightarrow>
                \<exists>c'. update_one (db ''book'') bk (inc_field ''copies_available'' 1) = Some c' \<and>
                     snd (return_book db loan_id now) = db(''loan'' := c, ''book'' := c'))"
proof -
  obtain lk loan where g: "get_by_id db ''loan'' loan_id = Inr (lk, loan)"
    using assms by (auto simp: return_book_def split: sum.splits)
  then have l: "ObjectId loan_id = Some lk" "find_one (db ''loan'') lk = Some loan"
    by (simp_all add: get_by_id_Inr)
  have st: "loan ''status'' \<noteq> Some (VStr ''returned'')"
    using assms g by (auto simp: return_book_def split: if_splits)
  obtain c where c: "update_one (db ''loan'') lk
             (set_fields [(''status'', VStr ''returned''), (''return_date'', VTime now)]) = Some c"
    using assms g st by (auto simp: return_book_def split: option.splits)
  show ?thesis
  proof (cases "to_oid (loan ''book_id'')")
    case None
    then show ?thesis using assms g st c l
      by (auto simp: return_book_def is_valid_def Let_def)
  next
    case (Some bk)
    then show ?thesis using assms g st c l
      by (auto simp: return_book_def is_valid_def Let_def split: option.splits)
  qed
qed

lemma return_book_borrowed:
  assumes "ObjectId loan_id = Some lk"
      and "find_one (db ''loan'') lk = Some loan"
      and "loan ''status'' \<noteq> Some (VStr ''returned'')"
  shows "\<exists>c. update_one (db ''loan'') lk
             (set_fields [(''status'', VStr ''returned''), (''return_date'', VTime now)]) = Some c \<and>
           return_book db loan_id now =
             (case to_oid (loan ''book_id'') of
                None \<Rightarrow> (Inr [''status'' \<mapsto> VStr ''ok''], db(''loan'' := c))
              | Some bk \<Rightarrow>
                  (case update_one (db ''book'') bk (inc_field ''copies_available'' 1) of
                     None \<Rightarrow> (Inl (Unhandled ''WriteError''), db(''loan'' := c))
                   | Some c' \<Rightarrow> (Inr [''status'' \<mapsto> VStr ''ok''], db(''loan'' := c, ''book'' := c'))))"
proof -
  from assms(1,2) have g: "get_by_id db ''loan'' loan_id = Inr (lk, loan)"
    by (simp add: get_by_id_Inr)
  obtain c where c: "update_one (db ''loan'') lk
             (set_fields [(''status'', VStr ''returned''), (''return_date'', VTime now)]) = Some c"
    using update_one_present [OF assms(2), of "set_fields [(''status'', VStr ''returned''), (''return_date'', VTime now)]"]
    by (auto simp: set_fields_returned)
  show ?thesis using g c assms(3)
    by (auto simp: return_book_def is_valid_def Let_def split: option.splits)
qed

lemma update_one_frame:
  assumes "update_one c k u = Some c'"
      and "\<And>d d'. u d = Some d' \<Longrightarrow> R d d'"
      and "\<And>d. R d d"
  shows "list_all2 (\<lambda>(k1, d) (k2, d'). k2 = k1 \<and> (k1 \<noteq> k \<longrightarrow> d' = d) \<and> R d d') c c'"
  using assms(1)
proof (induction c arbitrary: c')
  case Nil
  then show ?case by simp
next
  case (Cons a c)
  obtain k1 d where a: "a = (k1, d)" by (cases a)
  show ?case
  proof (cases "k1 = k")
    case True
    with Cons.prems a obtain d' where "u d = Some d'" "c' = (k1, d') # c"
      by (auto split: option.splits)
    moreover have "list_all2 (\<lambda>(k1, d) (k2, d'). k2 = k1 \<and> (k1 \<noteq> k \<longrightarrow> d' = d) \<and> R d d') c c"
      by (rule list_all2_refl) (auto simp: assms(3))
    ultimately show ?thesis using a True assms(2) by simp
  next
    case False
    with Cons.prems a obtain c1 where "update_one c k u = Some c1" "c' = (k1, d) # c1"
      by auto
    then show ?thesis using Cons.IH a assms(3) by simp
  qed
qed

subsection \<open>The example stores, evaluated\<close>

lemma isoformat_examples:
  "isoformat 738910 = ''2024-01-25''"
  "isoformat 738917 = ''2024-02-01''"
  "isoformat 738924 = ''2024-02-08''"
  by code_simp+

lemma library_book:
  "library ''book'' = [(10, (BookIn_model_dump dune)(''copies_available'' \<mapsto> VInt 1))]"
  by (simp add: library_def run_def add_book_def add_member_def create_document_def
        empty_db_def dune_def)

lemma library_member: "library ''member'' = [(11, MemberIn_model_dump ann)]"
  by (simp add: library_def run_def add_book_def add_member_def create_document_def
        empty_db_def)

lemma library_loan: "library ''loan'' = []"
  by (simp add: library_def run_def add_book_def add_member_def create_document_def
        empty_db_def)

lemmas create_loan_eval =
  create_loan_def get_by_id_def is_valid_def borrow_def LoanIn_body_def ObjectId_examples
  library_book library_member library_loan find_one_def le_zero_def add_days_def noon_def
  MAXORDINAL_def create_document_def str_oid_examples inc_field_def date_of_def
  isoformat_examples

lemma create_loan_library:
  "fst (create_loan library borrow noon 12)
     = Inr [''id'' \<mapsto> VStr ''00000000000000000000000c'']"
  by (simp add: create_loan_eval)

lemma on_loan_loan:
  "on_loan ''loan'' =
     [(12, [''book_id'' \<mapsto> VStr ''00000000000000000000000a'',
            ''member_id'' \<mapsto> VStr ''00000000000000000000000b'',
            ''loan_date'' \<mapsto> VTime noon,
            ''due_date'' \<mapsto> VStr ''2024-02-01'',
            ''status'' \<mapsto> VStr ''borrowed''])]"
  by (simp add: on_loan_def run_def create_loan_eval)

lemma on_loan_book:
  "on_loan ''book'' = [(10, (BookIn_model_dump dune)(''copies_available'' \<mapsto> VInt 0))]"
  by (simp add: on_loan_def run_def create_loan_eval)

lemmas return_book_eval =
  return_book_def get_by_id_def is_valid_def ObjectId_examples on_loan_loan on_loan_book
  find_one_def set_fields_def inc_field_def BookIn_model_dump_def

lemma return_on_loan:
  "fst (return_book on_loan ''00000000000000000000000c'' noon)
     = Inr [''status'' \<mapsto> VStr ''ok'']"
  by (simp add: return_book_eval)

lemma given_back_run:
  "run empty_db [AddBook dune 10, AddMember ann 11, CreateLoan borrow noon 12,
                 ReturnBook ''00000000000000000000000c'' noon] = given_back"
  by (simp add: given_back_def on_loan_def library_def run_def)

lemma given_back_returned:
  "length (list_loans given_back (Some ''returned'')) = 1"
  by (simp add: given_back_def run_def list_loans_def get_documents_def matches_def
        return_book_eval Let_def)

lemma given_back_loan:
  "\<exists>l. find_one (given_back ''loan'') 12 = Some l \<and> l ''status'' = Some (VStr ''returned'')"
  by (simp add: given_back_def run_def return_book_eval Let_def)

lemma library_copies: "book_field library 10 ''copies_available'' = Some (VInt 1)"
  by (simp add: book_field_def library_book find_one_def)

lemma on_loan_copies: "book_field on_loan 10 ''copies_available'' = Some (VInt 0)"
  by (simp add: book_field_def on_loan_book find_one_def)

subsection \<open>Loans on a book without copies\<close>

text \<open>
  C1. When the book that the request names is stored with \<^verbatim>\<open>copies_available\<close> at most
  0, \<^verbatim>\<open>create_loan\<close> fails with \<^verbatim>\<open>HTTPException(400, "No copies available")\<close> and
  the store is left exactly as it was: no loan is inserted and no book is changed. Nothing
  is assumed about the member id or the member collection, which the handler has not
  read at that point.
\<close>

theorem create_loan_no_copies:
  assumes "ObjectId (book_id payload) = Some bk"
      and "find_one (db ''book'') bk = Some book"
      and "book ''copies_available'' = Some (VInt n)"
      and "n \<le> 0"
  shows "create_loan db payload now new_id =
           (Inl (HTTPException 400 ''No copies available''), db)"
proof -
  from assms(1,2) have "get_by_id db ''book'' (book_id payload) = Inr (bk, book)"
    by (simp add: get_by_id_Inr)
  moreover from assms(3,4) have
    "le_zero (case book ''copies_available'' of None \<Rightarrow> VInt 0 | Some v \<Rightarrow> v) = Inr True"
    by (simp add: le_zero_def)
  ultimately show ?thesis
    by (simp add: create_loan_def)
qed

theorem create_loan_no_copies_witness:
  "create_loan sold_out
       \<lparr>book_id = ''00000000000000000000000a'', member_id = ''not-an-id'', days = 14\<rparr>
       \<lparr>ordinal = 738910, micros = 0\<rparr> 12
     = (Inl (HTTPException 400 ''No copies available''), sold_out)"
  using create_loan_no_copies
    [of "\<lparr>book_id = ''00000000000000000000000a'', member_id = ''not-an-id'', days = 14\<rparr>"
        10 sold_out "(BookIn_model_dump dune)(''copies_available'' \<mapsto> VInt 0)" 0
        "\<lparr>ordinal = 738910, micros = 0\<rparr>" 12]
  by (simp add: ObjectId_examples sold_out_def empty_db_def find_one_def)

subsection \<open>Returning twice\<close>

text \<open>
  C4. \<^verbatim>\<open>return_book\<close> is not idempotent. On a loan whose status is already
  \<^verbatim>\<open>"returned"\<close> it fails with \<^verbatim>\<open>HTTPException(400, "Already returned")\<close> and leaves
  the store (the loan and every book) as it was; and after a successful return, a second
  return of the same loan fails in that way.
\<close>

theorem return_book_not_idempotent:
  "(\<forall>lk loan. ObjectId loan_id = Some lk \<and> find_one (db ''loan'') lk = Some loan
        \<and> loan ''status'' = Some (VStr ''returned'')
      \<longrightarrow> return_book db loan_id now = (Inl (HTTPException 400 ''Already returned''), db))
   \<and> (\<forall>ack. fst (return_book db loan_id now) = Inr ack
      \<longrightarrow> return_book (snd (return_book db loan_id now)) loan_id now' =
            (Inl (HTTPException 400 ''Already returned''), snd (return_book db loan_id now)))"
proof -
  have a: "return_book db' loan_id t = (Inl (HTTPException 400 ''Already returned''), db')"
    if "ObjectId loan_id = Some lk" "find_one (db' ''loan'') lk = Some loan"
       "loan ''status'' = Some (VStr ''returned'')" for db' lk loan t
  proof -
    from that(1,2) have "get_by_id db' ''loan'' loan_id = Inr (lk, loan)"
      by (simp add: get_by_id_Inr)
    with that(3) show ?thesis by (simp add: return_book_def)
  qed
  have b: "return_book (snd (return_book db loan_id now)) loan_id now' =
            (Inl (HTTPException 400 ''Already returned''), snd (return_book db loan_id now))"
    if "fst (return_book db loan_id now) = Inr ack" for ack
  proof -
    from return_book_Inr [OF that] obtain lk loan c where
      lk: "ObjectId loan_id = Some lk" and l: "find_one (db ''loan'') lk = Some loan" and
      c: "update_one (db ''loan'') lk
             (set_fields [(''status'', VStr ''returned''), (''return_date'', VTime now)]) = Some c" and
      s: "(case to_oid (loan ''book_id'') of
              None \<Rightarrow> snd (return_book db loan_id now) = db(''loan'' := c)
            | Some bk \<Rightarrow>
                \<exists>c'. update_one (db ''book'') bk (inc_field ''copies_available'' 1) = Some c' \<and>
                     snd (return_book db loan_id now) = db(''loan'' := c, ''book'' := c'))"
      by blast
    from s have sl: "snd (return_book db loan_id now) ''loan'' = c"
      by (auto split: option.splits)
    have "find_one c lk = Some (loan(''status'' \<mapsto> VStr ''returned'', ''return_date'' \<mapsto> VTime now))"
      using update_one_find_one [OF c, of lk] l by (simp add: set_fields_returned)
    then show ?thesis using a [OF lk, of "snd (return_book db loan_id now)"] sl by simp
  qed
  from a b show ?thesis by blast
qed

theorem return_book_not_idempotent_witness:
  "return_book given_back ''00000000000000000000000c'' noon
     = (Inl (HTTPException 400 ''Already returned''), given_back)
   \<and> fst (return_book on_loan ''00000000000000000000000c'' noon)
       = Inr [''status'' \<mapsto> VStr ''ok'']
   \<and> return_book (snd (return_book on_loan ''00000000000000000000000c'' noon))
         ''00000000000000000000000c'' noon =
       (Inl (HTTPException 400 ''Already returned''),
        snd (return_book on_loan ''00000000000000000000000c'' noon))"
proof -
  have i: "ObjectId ''00000000000000000000000c'' = Some 12"
    by (simp add: ObjectId_examples)
  from given_back_loan obtain l where
    l: "find_one (given_back ''loan'') 12 = Some l" "l ''status'' = Some (VStr ''returned'')"
    by blast
  from return_book_not_idempotent [of "''00000000000000000000000c''" given_back noon noon] i l
  have "return_book given_back ''00000000000000000000000c'' noon
          = (Inl (HTTPException 400 ''Already returned''), given_back)"
    by blast
  moreover
  from return_book_not_idempotent [of "''00000000000000000000000c''" on_loan noon noon]
    return_on_loan
  have "return_book (snd (return_book on_loan ''00000000000000000000000c'' noon))
         ''00000000000000000000000c'' noon =
       (Inl (HTTPException 400 ''Already returned''),
        snd (return_book on_loan ''00000000000000000000000c'' noon))"
    by blast
  ultimately show ?thesis using return_on_loan by simp
qed

subsection \<open>Creating a book\<close>

text \<open>
  C7. For every store and every body with \<^verbatim>\<open>copies_total = N\<close>, \<^verbatim>\<open>add_book\<close> (given an
  identifier that is new to the book collection, as the store generates it) succeeds,
  answers with that identifier, and the book it has stored under it has
  \<^verbatim>\<open>copies_total = N\<close> and \<^verbatim>\<open>copies_available = N\<close>.
\<close>

theorem add_book_copies_available:
  assumes "new_id \<notin> fst ` set (db ''book'')"
  shows "fst (add_book db payload new_id) = Inr [''id'' \<mapsto> VStr (str_oid new_id)]
       \<and> book_field (snd (add_book db payload new_id)) new_id ''copies_total''
            = Some (VInt (copies_total payload))
       \<and> book_field (snd (add_book db payload new_id)) new_id ''copies_available''
            = Some (VInt (copies_total payload))"
  using assms
  by (simp add: add_book_def create_document_def Let_def book_field_def
        find_one_append_fresh BookIn_model_dump_def)

theorem add_book_copies_available_witness:
  "12 \<notin> fst ` set (library ''book'')
   \<and> fst (add_book library (dune\<lparr>copies_total := 3\<rparr>) 12)
       = Inr [''id'' \<mapsto> VStr ''00000000000000000000000c'']
   \<and> book_field (snd (add_book library (dune\<lparr>copies_total := 3\<rparr>) 12)) 12 ''copies_total''
       = Some (VInt 3)
   \<and> book_field (snd (add_book library (dune\<lparr>copies_total := 3\<rparr>) 12)) 12
        ''copies_available'' = Some (VInt 3)"
proof -
  have h: "12 \<notin> fst ` set (library ''book'')"
    by (simp add: library_book)
  from h add_book_copies_available [of 12 library "dune\<lparr>copies_total := 3\<rparr>", OF h]
  show ?thesis
    by (simp add: str_oid_examples)
qed

subsection \<open>The dates of a loan\<close>

text \<open>
  C8. When \<^verbatim>\<open>create_loan\<close> succeeds, the loan it has stored has \<^verbatim>\<open>loan_date\<close> equal to
  the clock reading \<open>now\<close> and \<^verbatim>\<open>due_date\<close> equal to the ISO form of the calendar day of
  \<open>now\<close> plus \<^verbatim>\<open>days\<close> days; a body without \<^verbatim>\<open>days\<close> has \<^verbatim>\<open>days = 14\<close>.
\<close>

theorem create_loan_dates:
  assumes "fst (create_loan db payload now new_id) = Inr resp"
  shows "\<exists>loan. resp = [''id'' \<mapsto> VStr (str_oid new_id)]
       \<and> find_one (snd (create_loan db payload now new_id) ''loan'') new_id = Some loan
       \<and> loan ''loan_date'' = Some (VTime now)
       \<and> loan ''due_date'' = Some (VStr (isoformat (date_of now + days payload)))
       \<and> loan ''status'' = Some (VStr ''borrowed'')
       \<and> days (LoanIn_body (book_id payload) (member_id payload) None) = 14"
proof -
  from create_loan_Inr [OF assms] show ?thesis
    by (auto simp: find_one_append_fresh LoanIn_body_def)
qed

theorem create_loan_dates_witness:
  "fst (create_loan library borrow noon 12) = Inr [''id'' \<mapsto> VStr ''00000000000000000000000c'']
   \<and> (\<exists>loan. find_one (snd (create_loan library borrow noon 12) ''loan'') 12 = Some loan
        \<and> loan ''loan_date'' = Some (VTime noon)
        \<and> loan ''due_date'' = Some (VStr ''2024-02-01''))"
proof -
  have d: "isoformat (date_of noon + days borrow) = ''2024-02-01''"
    by (simp add: date_of_def noon_def borrow_def LoanIn_body_def isoformat_examples)
  from create_loan_library create_loan_dates [OF create_loan_library] show ?thesis
    by (auto simp: d)
qed

subsection \<open>Borrowing and returning\<close>

text \<open>
  C2. When \<^verbatim>\<open>create_loan\<close> succeeds for a book, the book's \<^verbatim>\<open>copies_available\<close> was an
  integer \<open>n\<close> and is \<open>n - 1\<close> afterwards; \<^verbatim>\<open>return_book\<close> on the loan identifier that
  \<^verbatim>\<open>create_loan\<close> returned then succeeds, and the book's \<^verbatim>\<open>copies_available\<close> is \<open>n\<close>
  again.
\<close>

theorem loan_then_return_restores:
  assumes "fst (create_loan db payload now new_id) = Inr resp"
  shows "\<exists>bk n loan_id.
           ObjectId (book_id payload) = Some bk
         \<and> resp ''id'' = Some (VStr loan_id)
         \<and> book_field db bk ''copies_available'' = Some (VInt n)
         \<and> book_field (snd (create_loan db payload now new_id)) bk ''copies_available''
             = Some (VInt (n - 1))
         \<and> fst (return_book (snd (create_loan db payload now new_id)) loan_id now')
             = Inr [''status'' \<mapsto> VStr ''ok'']
         \<and> book_field (snd (return_book (snd (create_loan db payload now new_id)) loan_id now'))
               bk ''copies_available''
             = Some (VInt n)"
proof -
  let ?loan = "[''book_id'' \<mapsto> VStr (book_id payload),
                ''member_id'' \<mapsto> VStr (member_id payload),
                ''loan_date'' \<mapsto> VTime now,
                ''due_date'' \<mapsto> VStr (isoformat (date_of now + days payload)),
                ''status'' \<mapsto> VStr ''borrowed'']"
  let ?db1 = "snd (create_loan db payload now new_id)"
  from create_loan_Inr [OF assms] obtain bk book n c where
    bk: "ObjectId (book_id payload) = Some bk" and
    b: "find_one (db ''book'') bk = Some book" and
    n: "book ''copies_available'' = Some (VInt n)" and
    fresh: "new_id \<notin> fst ` set (db ''loan'')" and
    c: "update_one (db ''book'') bk (inc_field ''copies_available'' (- 1)) = Some c" and
    r: "resp = [''id'' \<mapsto> VStr (str_oid new_id)]" and
    s: "?db1 = db(''loan'' := db ''loan'' @ [(new_id, ?loan)], ''book'' := c)"
    by blast
  have inc: "inc_field ''copies_available'' (- 1) book
               = Some (book(''copies_available'' \<mapsto> VInt (n - 1)))"
    using n by (simp add: inc_field_def)
  have b1: "find_one (?db1 ''book'') bk = Some (book(''copies_available'' \<mapsto> VInt (n - 1)))"
    using update_one_find_one [OF c, of bk] b inc s by simp
  have l1: "find_one (?db1 ''loan'') new_id = Some ?loan"
    using s fresh by (simp add: find_one_append_fresh)
  have st: "?loan ''status'' \<noteq> Some (VStr ''returned'')" by simp
  have oid: "ObjectId (str_oid new_id) = Some new_id" by (rule ObjectId_str_oid)
  from return_book_borrowed [of "str_oid new_id" new_id ?db1 ?loan now', OF oid l1 st]
  obtain c1 where
    ret: "return_book ?db1 (str_oid new_id) now' =
            (case update_one (?db1 ''book'') bk (inc_field ''copies_available'' 1) of
               None \<Rightarrow> (Inl (Unhandled ''WriteError''), ?db1(''loan'' := c1))
             | Some c' \<Rightarrow> (Inr [''status'' \<mapsto> VStr ''ok''], ?db1(''loan'' := c1, ''book'' := c')))"
    using bk by auto
  have inc1: "inc_field ''copies_available'' 1 (book(''copies_available'' \<mapsto> VInt (n - 1)))
                = Some (book(''copies_available'' \<mapsto> VInt n))"
    by (simp add: inc_field_def)
  from update_one_present [of "?db1 ''book''" bk _ "inc_field ''copies_available'' 1", OF b1 inc1]
  obtain c2 where c2: "update_one (?db1 ''book'') bk (inc_field ''copies_available'' 1) = Some c2"
    by blast
  have b2: "find_one c2 bk = Some (book(''copies_available'' \<mapsto> VInt n))"
    using update_one_find_one [OF c2, of bk] b1 inc1 by simp
  have "book_field db bk ''copies_available'' = Some (VInt n)"
    using b n by (simp add: book_field_def)
  moreover have "book_field ?db1 bk ''copies_available'' = Some (VInt (n - 1))"
    using b1 by (simp add: book_field_def)
  moreover have "fst (return_book ?db1 (str_oid new_id) now') = Inr [''status'' \<mapsto> VStr ''ok'']"
    using ret c2 by simp
  moreover have "book_field (snd (return_book ?db1 (str_oid new_id) now')) bk ''copies_available''
                   = Some (VInt n)"
    using ret c2 b2 by (simp add: book_field_def)
  ultimately show ?thesis using bk r by auto
qed

theorem loan_then_return_restores_witness:
  "fst (create_loan library borrow noon 12) = Inr [''id'' \<mapsto> VStr ''00000000000000000000000c'']
   \<and> book_field library 10 ''copies_available'' = Some (VInt 1)
   \<and> book_field (snd (create_loan library borrow noon 12)) 10 ''copies_available''
       = Some (VInt 0)
   \<and> book_field (snd (return_book (snd (create_loan library borrow noon 12))
                        ''00000000000000000000000c'' noon)) 10 ''copies_available''
       = Some (VInt 1)"
proof -
  have b: "ObjectId (book_id borrow) = Some 10"
    by (simp add: borrow_def LoanIn_body_def ObjectId_examples)
  from loan_then_return_restores [OF create_loan_library, of noon] obtain bk n loan_id where
    f: "ObjectId (book_id borrow) = Some bk"
       "[''id'' \<mapsto> VStr ''00000000000000000000000c''] ''id'' = Some (VStr loan_id)"
       "book_field library bk ''copies_available'' = Some (VInt n)"
       "book_field (snd (create_loan library borrow noon 12)) bk ''copies_available''
          = Some (VInt (n - 1))"
       "book_field (snd (return_book (snd (create_loan library borrow noon 12)) loan_id noon))
          bk ''copies_available'' = Some (VInt n)"
    by blast
  from f(1) b have bk: "bk = 10" by simp
  from f(2) have l: "loan_id = ''00000000000000000000000c''" by simp
  from f(3) bk have n: "n = 1" by (simp add: library_copies)
  from f(4,5) bk l n create_loan_library library_copies show ?thesis by simp
qed

subsection \<open>A loan that does not name a book\<close>

text \<open>
  C5. Let \<^verbatim>\<open>return_book\<close> be called on a stored loan that is not yet returned. When the
  loan's stored \<^verbatim>\<open>book_id\<close> is not a well-formed identifier, the call still succeeds
  with \<^verbatim>\<open>{"status": "ok"}\<close>, marks the loan returned, and leaves the book collection
  untouched. When the stored \<^verbatim>\<open>book_id\<close> is well-formed and names a book whose
  \<^verbatim>\<open>copies_available\<close> is the integer \<open>n\<close>, the call succeeds, marks the loan
  returned, and the book's \<^verbatim>\<open>copies_available\<close> is \<open>n + 1\<close>.
\<close>

theorem return_book_malformed_book_id:
  assumes "ObjectId loan_id = Some lk"
      and "find_one (db ''loan'') lk = Some loan"
      and "loan ''status'' \<noteq> Some (VStr ''returned'')"
  shows "(\<not> is_valid (loan ''book_id'') \<longrightarrow>
            fst (return_book db loan_id now) = Inr [''status'' \<mapsto> VStr ''ok'']
          \<and> find_one (snd (return_book db loan_id now) ''loan'') lk
              = Some (loan(''status'' \<mapsto> VStr ''returned'', ''return_date'' \<mapsto> VTime now))
          \<and> snd (return_book db loan_id now) ''book'' = db ''book'')
       \<and> (\<forall>bk n. is_valid (loan ''book_id'') \<and> to_oid (loan ''book_id'') = Some bk
              \<and> book_field db bk ''copies_available'' = Some (VInt n) \<longrightarrow>
            fst (return_book db loan_id now) = Inr [''status'' \<mapsto> VStr ''ok'']
          \<and> find_one (snd (return_book db loan_id now) ''loan'') lk
              = Some (loan(''status'' \<mapsto> VStr ''returned'', ''return_date'' \<mapsto> VTime now))
          \<and> book_field (snd (return_book db loan_id now)) bk ''copies_available''
              = Some (VInt (n + 1)))"
proof -
  from return_book_borrowed [of loan_id lk db loan now, OF assms] obtain c where
    c: "update_one (db ''loan'') lk
          (set_fields [(''status'', VStr ''returned''), (''return_date'', VTime now)]) = Some c" and
    r: "return_book db loan_id now =
          (case to_oid (loan ''book_id'') of
             None \<Rightarrow> (Inr [''status'' \<mapsto> VStr ''ok''], db(''loan'' := c))
           | Some bk \<Rightarrow>
               (case update_one (db ''book'') bk (inc_field ''copies_available'' 1) of
                  None \<Rightarrow> (Inl (Unhandled ''WriteError''), db(''loan'' := c))
                | Some c' \<Rightarrow>
                    (Inr [''status'' \<mapsto> VStr ''ok''], db(''loan'' := c, ''book'' := c'))))"
    by blast
  have lc: "find_one c lk
              = Some (loan(''status'' \<mapsto> VStr ''returned'', ''return_date'' \<mapsto> VTime now))"
    using update_one_find_one [OF c, of lk] assms(2) by (simp add: set_fields_returned)
  have skip: ?thesis if "\<not> is_valid (loan ''book_id'')"
    using that r lc by (simp add: is_valid_def)
  have incr: "fst (return_book db loan_id now) = Inr [''status'' \<mapsto> VStr ''ok'']
          \<and> find_one (snd (return_book db loan_id now) ''loan'') lk
              = Some (loan(''status'' \<mapsto> VStr ''returned'', ''return_date'' \<mapsto> VTime now))
          \<and> book_field (snd (return_book db loan_id now)) bk ''copies_available''
              = Some (VInt (n + 1))"
    if bk: "to_oid (loan ''book_id'') = Some bk"
      and n: "book_field db bk ''copies_available'' = Some (VInt n)" for bk n
  proof -
    from n obtain book where b: "find_one (db ''book'') bk = Some book"
      and bn: "book ''copies_available'' = Some (VInt n)"
      by (auto simp: book_field_def split: option.splits)
    have inc: "inc_field ''copies_available'' 1 book
                 = Some (book(''copies_available'' \<mapsto> VInt (n + 1)))"
      using bn by (simp add: inc_field_def)
    from update_one_present [of "db ''book''" bk _ "inc_field ''copies_available'' 1", OF b inc]
    obtain c' where c': "update_one (db ''book'') bk (inc_field ''copies_available'' 1) = Some c'"
      by blast
    have "find_one c' bk = Some (book(''copies_available'' \<mapsto> VInt (n + 1)))"
      using update_one_find_one [OF c', of bk] b inc by simp
    then show ?thesis using r bk c' lc by (simp add: book_field_def)
  qed
  show ?thesis
  proof (cases "is_valid (loan ''book_id'')")
    case False
    then show ?thesis by (rule skip)
  next
    case True
    then show ?thesis using incr by blast
  qed
qed

theorem return_book_malformed_book_id_witness:
  "fst (return_book stray ''00000000000000000000000c'' noon) = Inr [''status'' \<mapsto> VStr ''ok'']
   \<and> snd (return_book stray ''00000000000000000000000c'' noon) ''book'' = stray ''book''
   \<and> book_field on_loan 10 ''copies_available'' = Some (VInt 0)
   \<and> book_field (snd (return_book on_loan ''00000000000000000000000c'' noon)) 10
        ''copies_available'' = Some (VInt 1)"
proof -
  let ?l = "[''book_id'' \<mapsto> VStr ''not-an-id'', ''status'' \<mapsto> VStr ''borrowed'']"
  let ?m = "[''book_id'' \<mapsto> VStr ''00000000000000000000000a'',
             ''member_id'' \<mapsto> VStr ''00000000000000000000000b'',
             ''loan_date'' \<mapsto> VTime noon,
             ''due_date'' \<mapsto> VStr ''2024-02-01'',
             ''status'' \<mapsto> VStr ''borrowed'']"
  have i: "ObjectId ''00000000000000000000000c'' = Some 12"
    by (simp add: ObjectId_examples)
  have l: "find_one (stray ''loan'') 12 = Some ?l"
    by (simp add: stray_def find_one_def)
  have s: "?l ''status'' \<noteq> Some (VStr ''returned'')" by simp
  have v: "\<not> is_valid (?l ''book_id'')"
    by (simp add: is_valid_def ObjectId_examples)
  have m: "find_one (on_loan ''loan'') 12 = Some ?m"
    by (simp add: on_loan_loan find_one_def)
  have t: "?m ''status'' \<noteq> Some (VStr ''returned'')" by simp
  have w: "is_valid (?m ''book_id'')" "to_oid (?m ''book_id'') = Some 10"
    by (simp_all add: is_valid_def ObjectId_examples)
  from return_book_malformed_book_id
         [of "''00000000000000000000000c''" 12 stray ?l noon, OF i l s] v
  have a: "fst (return_book stray ''00000000000000000000000c'' noon)
             = Inr [''status'' \<mapsto> VStr ''ok'']"
          "snd (return_book stray ''00000000000000000000000c'' noon) ''book'' = stray ''book''"
    by blast+
  from return_book_malformed_book_id
         [of "''00000000000000000000000c''" 12 on_loan ?m noon, OF i m t] w on_loan_copies
  have "book_field (snd (return_book on_loan ''00000000000000000000000c'' noon)) 10
          ''copies_available'' = Some (VInt (0 + 1))"
    by blast
  with a on_loan_copies show ?thesis by simp
qed

subsection \<open>What a return leaves alone\<close>

text \<open>
  C10. A successful \<^verbatim>\<open>return_book\<close> keeps the identifiers and the order of the loans
  and of the books; it changes no loan other than the one returned and, in that one, no
  field other than \<^verbatim>\<open>status\<close> and \<^verbatim>\<open>return_date\<close> (so \<^verbatim>\<open>book_id\<close>, \<^verbatim>\<open>member_id\<close>,
  \<^verbatim>\<open>loan_date\<close> and \<^verbatim>\<open>due_date\<close> stay); it changes no book other than the one the loan
  names and, in that one, no field other than \<^verbatim>\<open>copies_available\<close>; and it changes no
  other collection.
\<close>

theorem return_book_frame:
  assumes "fst (return_book db loan_id now) = Inr ack"
  shows "\<exists>lk loan.
           ObjectId loan_id = Some lk \<and> find_one (db ''loan'') lk = Some loan
         \<and> list_all2 (\<lambda>(k, l) (k', l'). k' = k \<and> (k \<noteq> lk \<longrightarrow> l' = l)
                        \<and> (\<forall>f. f \<noteq> ''status'' \<and> f \<noteq> ''return_date'' \<longrightarrow> l' f = l f))
             (db ''loan'') (snd (return_book db loan_id now) ''loan'')
         \<and> list_all2 (\<lambda>(k, b) (k', b'). k' = k \<and> (to_oid (loan ''book_id'') \<noteq> Some k \<longrightarrow> b' = b)
                        \<and> (\<forall>f. f \<noteq> ''copies_available'' \<longrightarrow> b' f = b f))
             (db ''book'') (snd (return_book db loan_id now) ''book'')
         \<and> (\<forall>coll. coll \<noteq> ''loan'' \<and> coll \<noteq> ''book''
               \<longrightarrow> snd (return_book db loan_id now) coll = db coll)"
proof -
  let ?db' = "snd (return_book db loan_id now)"
  let ?L = "\<lambda>l l'. \<forall>f. f \<noteq> ''status'' \<and> f \<noteq> ''return_date'' \<longrightarrow> l' f = (l::doc) f"
  let ?B = "\<lambda>b b'. \<forall>f. f \<noteq> ''copies_available'' \<longrightarrow> b' f = (b::doc) f"
  from return_book_Inr [OF assms] obtain lk loan c where
    lk: "ObjectId loan_id = Some lk" and l: "find_one (db ''loan'') lk = Some loan" and
    c: "update_one (db ''loan'') lk
          (set_fields [(''status'', VStr ''returned''), (''return_date'', VTime now)]) = Some c" and
    s: "(case to_oid (loan ''book_id'') of
           None \<Rightarrow> ?db' = db(''loan'' := c)
         | Some bk \<Rightarrow>
             \<exists>c'. update_one (db ''book'') bk (inc_field ''copies_available'' 1) = Some c' \<and>
                  ?db' = db(''loan'' := c, ''book'' := c'))"
    by blast
  have loans: "list_all2 (\<lambda>(k, l) (k', l'). k' = k \<and> (k \<noteq> lk \<longrightarrow> l' = l) \<and> ?L l l')
                 (db ''loan'') c"
    by (rule update_one_frame [OF c]) (auto simp: set_fields_def map_add_def)
  have same: "list_all2 (\<lambda>(k, b) (k', b'). k' = k \<and> (to_oid (loan ''book_id'') \<noteq> Some k \<longrightarrow> b' = b)
                 \<and> ?B b b') (db ''book'') (db ''book'')"
    by (rule list_all2_refl) auto
  have books: "list_all2 (\<lambda>(k, b) (k', b'). k' = k \<and> (to_oid (loan ''book_id'') \<noteq> Some k \<longrightarrow> b' = b)
                 \<and> ?B b b') (db ''book'') (?db' ''book'')"
  proof (cases "to_oid (loan ''book_id'')")
    case None
    with s same show ?thesis by simp
  next
    case (Some bk)
    with s obtain c' where
      c': "update_one (db ''book'') bk (inc_field ''copies_available'' 1) = Some c'" and
      e: "?db' = db(''loan'' := c, ''book'' := c')"
      by auto
    have "list_all2 (\<lambda>(k, b) (k', b'). k' = k \<and> (k \<noteq> bk \<longrightarrow> b' = b) \<and> ?B b b')
            (db ''book'') c'"
      by (rule update_one_frame [OF c']) (auto simp: inc_field_Some)
    then show ?thesis using Some e
      by (auto elim!: list_all2_mono)
  qed
  have loans': "?db' ''loan'' = c" using s by (auto split: option.splits)
  have rest: "\<forall>coll. coll \<noteq> ''loan'' \<and> coll \<noteq> ''book'' \<longrightarrow> ?db' coll = db coll"
    using s by (auto split: option.splits)
  show ?thesis using lk l loans loans' books rest by auto
qed

theorem return_book_frame_witness:
  "fst (return_book on_loan ''00000000000000000000000c'' noon) = Inr [''status'' \<mapsto> VStr ''ok'']
   \<and> snd (return_book on_loan ''00000000000000000000000c'' noon) ''member'' = on_loan ''member''
   \<and> length (snd (return_book on_loan ''00000000000000000000000c'' noon) ''loan'') = 1
   \<and> length (snd (return_book on_loan ''00000000000000000000000c'' noon) ''book'') = 1"
proof -
  let ?db = "snd (return_book on_loan ''00000000000000000000000c'' noon)"
  from return_book_frame [OF return_on_loan] obtain lk and loan :: doc where
    f: "list_all2 (\<lambda>(k, l) (k', l'). k' = k \<and> (k \<noteq> lk \<longrightarrow> l' = l)
                        \<and> (\<forall>f. f \<noteq> ''status'' \<and> f \<noteq> ''return_date'' \<longrightarrow> l' f = l f))
             (on_loan ''loan'') (?db ''loan'')"
       "list_all2 (\<lambda>(k, b) (k', b'). k' = k \<and> (to_oid (loan ''book_id'') \<noteq> Some k \<longrightarrow> b' = b)
                        \<and> (\<forall>f. f \<noteq> ''copies_available'' \<longrightarrow> b' f = b f))
             (on_loan ''book'') (?db ''book'')"
       "\<forall>coll. coll \<noteq> ''loan'' \<and> coll \<noteq> ''book'' \<longrightarrow> ?db coll = on_loan coll"
    by blast
  from list_all2_lengthD [OF f(1)] have "length (?db ''loan'') = 1"
    by (simp add: on_loan_loan)
  moreover from list_all2_lengthD [OF f(2)] have "length (?db ''book'') = 1"
    by (simp add: on_loan_book)
  moreover from f(3) have "?db ''member'' = on_loan ''member''" by simp
  ultimately show ?thesis using return_on_loan by simp
qed

subsection \<open>Returned loans have a return date\<close>

lemma add_book_other: "collection \<noteq> ''book'' \<Longrightarrow> snd (add_book db p i) collection = db collection"
  by (simp add: add_book_def create_document_def Let_def)

lemma add_member_other:
  "collection \<noteq> ''member'' \<Longrightarrow> snd (add_member db p i) collection = db collection"
  by (simp add: add_member_def create_document_def)

lemma create_loan_loan:
  "snd (create_loan db p t i) ''loan'' = db ''loan''
   \<or> (\<exists>l. l ''status'' = Some (VStr ''borrowed'')
          \<and> snd (create_loan db p t i) ''loan'' = db ''loan'' @ [(i, l)])"
  by (simp add: create_loan_def create_document_def Let_def split: sum.splits option.splits prod.splits)

lemma return_book_loan:
  "snd (return_book db loan_id t) ''loan'' = db ''loan''
   \<or> (\<exists>lk c. update_one (db ''loan'') lk
                 (set_fields [(''status'', VStr ''returned''), (''return_date'', VTime t)]) = Some c
          \<and> snd (return_book db loan_id t) ''loan'' = c)"
proof (cases "get_by_id db ''loan'' loan_id")
  case (Inl e)
  then show ?thesis by (simp add: return_book_def)
next
  case (Inr kl)
  obtain lk loan where kl: "kl = (lk, loan)" by (cases kl)
  show ?thesis
  proof (cases "loan ''status'' = Some (VStr ''returned'')")
    case True
    with Inr kl show ?thesis by (simp add: return_book_def)
  next
    case False
    show ?thesis
    proof (cases "update_one (db ''loan'') lk
                 (set_fields [(''status'', VStr ''returned''), (''return_date'', VTime t)])")
      case None
      with Inr kl False show ?thesis by (simp add: return_book_def)
    next
      case (Some c)
      with Inr kl False have "snd (return_book db loan_id t) ''loan'' = c"
        by (simp add: return_book_def Let_def split: option.splits)
      with Some show ?thesis by blast
    qed
  qed
qed

lemma returned_dated_handle: "returned_dated db \<Longrightarrow> returned_dated (handle db r)"
proof (cases r)
  case (AddBook p i)
  then show "returned_dated db \<Longrightarrow> ?thesis" by (simp add: returned_dated_def add_book_other)
next
  case (AddMember p i)
  then show "returned_dated db \<Longrightarrow> ?thesis" by (simp add: returned_dated_def add_member_other)
next
  case (CreateLoan p t i)
  then show "returned_dated db \<Longrightarrow> ?thesis"
    using create_loan_loan [of db p t i] by (auto simp: returned_dated_def)
next
  case (ReturnBook loan_id t)
  assume inv: "returned_dated db"
  have "returned_dated (snd (return_book db loan_id t))"
    unfolding returned_dated_def
  proof (clarify)
    fix k l
    assume m: "(k, l) \<in> set (snd (return_book db loan_id t) ''loan'')"
       and s: "l ''status'' = Some (VStr ''returned'')"
    from return_book_loan [of db loan_id t]
    consider "snd (return_book db loan_id t) ''loan'' = db ''loan''"
      | lk c where "update_one (db ''loan'') lk
                 (set_fields [(''status'', VStr ''returned''), (''return_date'', VTime t)]) = Some c"
          "snd (return_book db loan_id t) ''loan'' = c"
      by blast
    then show "\<exists>t. l ''return_date'' = Some (VTime t)"
    proof cases
      case 1
      with m s inv show ?thesis by (auto simp: returned_dated_def)
    next
      case 2
      from update_one_set [OF 2(1), of k l] m 2(2)
      have "(k, l) \<in> set (db ''loan'')
            \<or> (\<exists>d. l = d(''status'' \<mapsto> VStr ''returned'', ''return_date'' \<mapsto> VTime t))"
        by (auto simp: set_fields_returned)
      with s inv show ?thesis by (auto simp: returned_dated_def)
    qed
  qed
  with ReturnBook show ?thesis by simp
qed

lemma returned_dated_run: "returned_dated db \<Longrightarrow> returned_dated (run db rs)"
  unfolding run_def by (induction rs arbitrary: db) (auto simp: returned_dated_handle)

lemma returned_dated_empty: "returned_dated empty_db"
  by (simp add: returned_dated_def empty_db_def)

text \<open>
  C9. In every store that the handlers produce from the empty store, by any sequence of
  requests (failed ones included), each loan whose status is \<^verbatim>\<open>"returned"\<close> has a
  \<^verbatim>\<open>return_date\<close> timestamp; hence every loan that \<^verbatim>\<open>list_loans\<close> returns for
  \<^verbatim>\<open>status=returned\<close> has status \<^verbatim>\<open>"returned"\<close> and a \<^verbatim>\<open>return_date\<close>.
\<close>

theorem returned_loans_have_return_date:
  "returned_dated (run empty_db rs)
   \<and> (\<forall>l \<in> set (list_loans (run empty_db rs) (Some ''returned'')).
         l ''status'' = Some (VStr ''returned'') \<and> (\<exists>t. l ''return_date'' = Some (VTime t)))"
proof -
  have inv: "returned_dated (run empty_db rs)"
    by (rule returned_dated_run [OF returned_dated_empty])
  then show ?thesis
    by (auto simp: list_loans_def get_documents_def matches_def returned_dated_def)
qed

theorem returned_loans_have_return_date_witness:
  "\<exists>l t. list_loans given_back (Some ''returned'') = [l]
         \<and> l ''status'' = Some (VStr ''returned'') \<and> l ''return_date'' = Some (VTime t)"
proof -
  from given_back_returned obtain l where l: "list_loans given_back (Some ''returned'') = [l]"
    by (cases "list_loans given_back (Some ''returned'')") auto
  have "\<forall>l \<in> set (list_loans given_back (Some ''returned'')).
          l ''status'' = Some (VStr ''returned'') \<and> (\<exists>t. l ''return_date'' = Some (VTime t))"
    using returned_loans_have_return_date
         [of "[AddBook dune 10, AddMember ann 11, CreateLoan borrow noon 12,
               ReturnBook ''00000000000000000000000c'' noon]", unfolded given_back_run]
    by (rule conjunct2)
  with l show ?thesis by simp
qed

subsection \<open>Member emails\<close>

text \<open>
  C6. \<^verbatim>\<open>MemberIn\<close> declares \<^verbatim>\<open>email: str\<close>, so the body with email
  \<^verbatim>\<open>"not-an-email"\<close> is a valid request: \<^verbatim>\<open>add_member\<close> answers with the new
  identifier and the member collection holds the record with that email. (The
  \<^verbatim>\<open>EmailStr\<close> of \<^verbatim>\<open>schemas.Member\<close> is never applied by \<^verbatim>\<open>main.py\<close>.)
\<close>

theorem add_member_accepts_any_email:
  "fst (add_member empty_db bob 11) = Inr [''id'' \<mapsto> VStr ''00000000000000000000000b'']
   \<and> snd (add_member empty_db bob 11) ''member''
       = [(11, [''name'' \<mapsto> VStr ''Bob'', ''email'' \<mapsto> VStr ''not-an-email'',
                ''membership_id'' \<mapsto> VNull, ''phone'' \<mapsto> VNull])]"
  by (simp add: add_member_def create_document_def empty_db_def str_oid_examples
        MemberIn_model_dump_def bob_def opt_str_def)

subsection \<open>The copy counts\<close>

text \<open>
  C3. \<^verbatim>\<open>BookIn\<close> declares \<^verbatim>\<open>copies_total: int\<close> without the lower bound of
  \<^verbatim>\<open>schemas.Book\<close>, so the body with \<^verbatim>\<open>copies_total = -1\<close> is a valid request:
  \<^verbatim>\<open>add_book\<close> stores the book with \<^verbatim>\<open>copies_total = -1\<close> and
  \<^verbatim>\<open>copies_available = -1\<close>, below 0.
\<close>

theorem add_book_negative_copies:
  "fst (add_book empty_db (dune\<lparr>copies_total := - 1\<rparr>) 10)
     = Inr [''id'' \<mapsto> VStr ''00000000000000000000000a'']
   \<and> book_field (snd (add_book empty_db (dune\<lparr>copies_total := - 1\<rparr>) 10)) 10 ''copies_total''
       = Some (VInt (- 1))
   \<and> book_field (snd (add_book empty_db (dune\<lparr>copies_total := - 1\<rparr>) 10)) 10
        ''copies_available'' = Some (VInt (- 1))"
  by (simp add: add_book_def create_document_def empty_db_def str_oid_examples
        BookIn_model_dump_def book_field_def find_one_def dune_def)

text \<open>
  When every book is created with a non-negative \<^verbatim>\<open>copies_total\<close>, the counts stay
  consistent from the empty store on, through any sequence of requests.
\<close>

lemma copies_consistent_cong:
  "db' ''book'' = db ''book'' \<Longrightarrow> db' ''loan'' = db ''loan'' \<Longrightarrow>
     copies_consistent db' = copies_consistent db"
  by (simp add: copies_consistent_def borrowed_count_def)

lemma copies_consistent_empty: "copies_consistent empty_db"
  by (simp add: copies_consistent_def borrowed_count_def empty_db_def)

lemma copies_consistent_add_member:
  "copies_consistent db \<Longrightarrow> copies_consistent (snd (add_member db p i))"
  by (simp add: copies_consistent_cong [of "snd (add_member db p i)" db] add_member_other)

lemma copies_consistent_add_book:
  assumes "copies_consistent db" and "0 \<le> copies_total p"
  shows "copies_consistent (snd (add_book db p i))"
proof (cases "i \<in> fst ` set (db ''book'')")
  case True
  then have "snd (add_book db p i) = db"
    by (simp add: add_book_def create_document_def Let_def)
  with assms show ?thesis by simp
next
  case False
  let ?b = "(BookIn_model_dump p)(''copies_available'' \<mapsto> VInt (copies_total p))"
  let ?db = "snd (add_book db p i)"
  have bk: "?db ''book'' = db ''book'' @ [(i, ?b)]"
    using False by (simp add: add_book_def create_document_def Let_def)
  have ln: "?db ''loan'' = db ''loan''" by (simp add: add_book_other)
  have cnt: "borrowed_count ?db k = borrowed_count db k" for k
    by (simp add: borrowed_count_def ln)
  have z: "borrowed_count db i = 0"
    using assms(1) False by (simp add: copies_consistent_def)
  have t: "?b ''copies_total'' = Some (VInt (copies_total p))"
    by (simp add: BookIn_model_dump_def)
  show ?thesis
    unfolding copies_consistent_def
  proof (intro conjI)
    show "distinct (map fst (?db ''book''))"
      using assms(1) False by (simp add: bk copies_consistent_def)
    show "\<forall>k. k \<notin> fst ` set (?db ''book'') \<longrightarrow> borrowed_count ?db k = 0"
      using assms(1) by (simp add: bk cnt copies_consistent_def)
    show "\<forall>(k, b) \<in> set (?db ''book'').
          \<exists>total available.
            b ''copies_total'' = Some (VInt total)
          \<and> b ''copies_available'' = Some (VInt available)
          \<and> 0 \<le> available
          \<and> available + int (borrowed_count ?db k) = total"
      using assms t z by (auto simp: bk cnt copies_consistent_def)
  qed
qed

lemma create_loan_Inl:
  assumes "fst (create_loan db p t i) = Inl e"
  shows "snd (create_loan db p t i) = db
       \<or> (\<exists>bk book. find_one (db ''book'') bk = Some book
             \<and> le_zero (case book ''copies_available'' of None \<Rightarrow> VInt 0 | Some v \<Rightarrow> v)
                 = Inr False
             \<and> update_one (db ''book'') bk (inc_field ''copies_available'' (- 1)) = None)"
proof (cases "get_by_id db ''book'' (book_id p)")
  case (Inl e')
  then show ?thesis by (simp add: create_loan_def)
next
  case (Inr kb)
  obtain bk book where kb: "kb = (bk, book)" by (cases kb)
  with Inr have b: "find_one (db ''book'') bk = Some book" by (simp add: get_by_id_Inr)
  show ?thesis
  proof (cases "le_zero (case book ''copies_available'' of None \<Rightarrow> VInt 0 | Some v \<Rightarrow> v)
                  = Inr False")
    case False
    with Inr kb show ?thesis
      by (auto simp: create_loan_def split: sum.splits)
  next
    case lz: True
    show ?thesis
    proof (cases "update_one (db ''book'') bk (inc_field ''copies_available'' (- 1))")
      case None
      with b lz show ?thesis by blast
    next
      case (Some c)
      with Inr kb lz assms show ?thesis
        by (auto simp: create_loan_def create_document_def Let_def
              split: sum.splits option.splits if_splits)
    qed
  qed
qed

lemma return_book_cases:
  "snd (return_book db loan_id t) = db
   \<or> (\<exists>lk loan c. find_one (db ''loan'') lk = Some loan
         \<and> loan ''status'' \<noteq> Some (VStr ''returned'')
         \<and> update_one (db ''loan'') lk
              (set_fields [(''status'', VStr ''returned''), (''return_date'', VTime t)]) = Some c
         \<and> (case to_oid (loan ''book_id'') of
               None \<Rightarrow> snd (return_book db loan_id t) = db(''loan'' := c)
             | Some bk \<Rightarrow>
                 (case update_one (db ''book'') bk (inc_field ''copies_available'' 1) of
                    None \<Rightarrow> snd (return_book db loan_id t) = db(''loan'' := c)
                  | Some c' \<Rightarrow> snd (return_book db loan_id t) = db(''loan'' := c, ''book'' := c'))))"
proof (cases "get_by_id db ''loan'' loan_id")
  case (Inl e)
  then show ?thesis by (simp add: return_book_def)
next
  case (Inr kl)
  obtain lk loan where kl: "kl = (lk, loan)" by (cases kl)
  with Inr have l: "ObjectId loan_id = Some lk" "find_one (db ''loan'') lk = Some loan"
    by (simp_all add: get_by_id_Inr)
  show ?thesis
  proof (cases "loan ''status'' = Some (VStr ''returned'')")
    case True
    with Inr kl show ?thesis by (simp add: return_book_def)
  next
    case False
    from return_book_borrowed [of loan_id lk db loan t, OF l False] obtain c where
      c: "update_one (db ''loan'') lk
            (set_fields [(''status'', VStr ''returned''), (''return_date'', VTime t)]) = Some c" and
      r: "return_book db loan_id t =
            (case to_oid (loan ''book_id'') of
               None \<Rightarrow> (Inr [''status'' \<mapsto> VStr ''ok''], db(''loan'' := c))
             | Some bk \<Rightarrow>
                 (case update_one (db ''book'') bk (inc_field ''copies_available'' 1) of
                    None \<Rightarrow> (Inl (Unhandled ''WriteError''), db(''loan'' := c))
                  | Some c' \<Rightarrow>
                      (Inr [''status'' \<mapsto> VStr ''ok''], db(''loan'' := c, ''book'' := c'))))"
      by blast
    have "case to_oid (loan ''book_id'') of
               None \<Rightarrow> snd (return_book db loan_id t) = db(''loan'' := c)
             | Some bk \<Rightarrow>
                 (case update_one (db ''book'') bk (inc_field ''copies_available'' 1) of
                    None \<Rightarrow> snd (return_book db loan_id t) = db(''loan'' := c)
                  | Some c' \<Rightarrow> snd (return_book db loan_id t) = db(''loan'' := c, ''book'' := c'))"
      by (simp add: r split: option.splits)
    with l(2) False c show ?thesis by blast
  qed
qed

lemma copies_consistent_book:
  "copies_consistent db \<Longrightarrow> (k, b) \<in> set (db ''book'') \<Longrightarrow>
     \<exists>total available.
       b ''copies_total'' = Some (VInt total) \<and> b ''copies_available'' = Some (VInt available)
     \<and> 0 \<le> available \<and> available + int (borrowed_count db k) = total"
  by (auto simp: copies_consistent_def)

lemma copies_consistent_create_loan:
  assumes inv: "copies_consistent db"
  shows "copies_consistent (snd (create_loan db p t i))"
proof (cases "fst (create_loan db p t i)")
  case (Inl e)
  from create_loan_Inl [OF Inl] show ?thesis
  proof
    assume "snd (create_loan db p t i) = db"
    with inv show ?thesis by simp
  next
    assume "\<exists>bk book. find_one (db ''book'') bk = Some book
             \<and> le_zero (case book ''copies_available'' of None \<Rightarrow> VInt 0 | Some v \<Rightarrow> v)
                 = Inr False
             \<and> update_one (db ''book'') bk (inc_field ''copies_available'' (- 1)) = None"
    then obtain bk book where b: "find_one (db ''book'') bk = Some book"
      and u: "update_one (db ''book'') bk (inc_field ''copies_available'' (- 1)) = None"
      by blast
    from copies_consistent_book [OF inv find_one_mem [OF b]]
    obtain a where "book ''copies_available'' = Some (VInt a)" by blast
    then have "inc_field ''copies_available'' (- 1) book
                 = Some (book(''copies_available'' \<mapsto> VInt (a + - 1)))"
      by (simp add: inc_field_def)
    from update_one_present
           [of "db ''book''" bk book "inc_field ''copies_available'' (- 1)", OF b this] u
    show ?thesis by simp
  qed
next
  case (Inr resp)
  let ?L = "[''book_id'' \<mapsto> VStr (book_id p),
             ''member_id'' \<mapsto> VStr (member_id p),
             ''loan_date'' \<mapsto> VTime t,
             ''due_date'' \<mapsto> VStr (isoformat (date_of t + days p)),
             ''status'' \<mapsto> VStr ''borrowed'']"
  let ?db = "snd (create_loan db p t i)"
  from create_loan_Inr [OF Inr] obtain bk book n c where
    bk: "ObjectId (book_id p) = Some bk" and
    b: "find_one (db ''book'') bk = Some book" and
    n: "book ''copies_available'' = Some (VInt n)" "0 < n" and
    c: "update_one (db ''book'') bk (inc_field ''copies_available'' (- 1)) = Some c" and
    s: "?db = db(''loan'' := db ''loan'' @ [(i, ?L)], ''book'' := c)"
    by blast
  have sb: "?db ''book'' = c" and sl: "?db ''loan'' = db ''loan'' @ [(i, ?L)]"
    by (simp_all add: s)
  have cnt: "borrowed_count ?db k = borrowed_count db k + (if k = bk then 1 else 0)" for k
    using bk by (auto simp: borrowed_count_def sl)
  have ddb: "distinct (map fst (db ''book''))"
    using inv by (simp add: copies_consistent_def)
  have keys: "map fst c = map fst (db ''book'')" by (rule update_one_keys [OF c])
  then have keys': "fst ` set c = fst ` set (db ''book'')"
    by (metis set_map)
  have dc: "distinct (map fst c)" using ddb keys by simp
  have inc: "inc_field ''copies_available'' (- 1) book
               = Some (book(''copies_available'' \<mapsto> VInt (n - 1)))"
    using n(1) by (simp add: inc_field_def)
  have fc: "find_one c k = (if k = bk then Some (book(''copies_available'' \<mapsto> VInt (n - 1)))
                            else find_one (db ''book'') k)" for k
    using update_one_find_one [OF c, of k] b inc by simp
  show ?thesis
    unfolding copies_consistent_def
  proof (intro conjI)
    show "distinct (map fst (?db ''book''))" using dc by (simp add: sb)
    show "\<forall>k. k \<notin> fst ` set (?db ''book'') \<longrightarrow> borrowed_count ?db k = 0"
    proof (intro allI impI)
      fix k
      assume "k \<notin> fst ` set (?db ''book'')"
      then have k: "k \<notin> fst ` set (db ''book'')" by (simp add: sb keys')
      with find_one_keys [OF b] have "k \<noteq> bk" by auto
      moreover from k inv have "borrowed_count db k = 0" by (simp add: copies_consistent_def)
      ultimately show "borrowed_count ?db k = 0" by (simp add: cnt)
    qed
    show "\<forall>(k, b') \<in> set (?db ''book'').
          \<exists>total available.
            b' ''copies_total'' = Some (VInt total)
          \<and> b' ''copies_available'' = Some (VInt available)
          \<and> 0 \<le> available
          \<and> available + int (borrowed_count ?db k) = total"
    proof (clarify)
      fix k b'
      assume "(k, b') \<in> set (?db ''book'')"
      then have f: "find_one c k = Some b'"
        by (simp add: sb find_one_distinct [OF dc])
      show "\<exists>total available.
            b' ''copies_total'' = Some (VInt total)
          \<and> b' ''copies_available'' = Some (VInt available)
          \<and> 0 \<le> available
          \<and> available + int (borrowed_count ?db k) = total"
      proof (cases "k = bk")
        case True
        with f fc have b': "b' = book(''copies_available'' \<mapsto> VInt (n - 1))" by simp
        from copies_consistent_book [OF inv find_one_mem [OF b]] n(1)
        obtain total where "book ''copies_total'' = Some (VInt total)"
          "n + int (borrowed_count db bk) = total"
          by auto
        with n(2) True show ?thesis by (simp add: b' cnt)
      next
        case False
        with f fc have "(k, b') \<in> set (db ''book'')"
          by (simp add: find_one_distinct [OF ddb])
        from copies_consistent_book [OF inv this] False show ?thesis by (simp add: cnt)
      qed
    qed
  qed
qed

lemma copies_consistent_return_book:
  assumes inv: "copies_consistent db"
  shows "copies_consistent (snd (return_book db loan_id t))"
proof -
  let ?db = "snd (return_book db loan_id t)"
  let ?set = "set_fields [(''status'', VStr ''returned''), (''return_date'', VTime t)]"
  from return_book_cases [of db loan_id t] show ?thesis
  proof
    assume "?db = db"
    with inv show ?thesis by simp
  next
    assume "\<exists>lk loan c. find_one (db ''loan'') lk = Some loan
         \<and> loan ''status'' \<noteq> Some (VStr ''returned'')
         \<and> update_one (db ''loan'') lk ?set = Some c
         \<and> (case to_oid (loan ''book_id'') of
               None \<Rightarrow> ?db = db(''loan'' := c)
             | Some bk \<Rightarrow>
                 (case update_one (db ''book'') bk (inc_field ''copies_available'' 1) of
                    None \<Rightarrow> ?db = db(''loan'' := c)
                  | Some c' \<Rightarrow> ?db = db(''loan'' := c, ''book'' := c')))"
    then obtain lk loan c where
      l: "find_one (db ''loan'') lk = Some loan" and
      st: "loan ''status'' \<noteq> Some (VStr ''returned'')" and
      c: "update_one (db ''loan'') lk ?set = Some c" and
      r: "case to_oid (loan ''book_id'') of
               None \<Rightarrow> ?db = db(''loan'' := c)
             | Some bk \<Rightarrow>
                 (case update_one (db ''book'') bk (inc_field ''copies_available'' 1) of
                    None \<Rightarrow> ?db = db(''loan'' := c)
                  | Some c' \<Rightarrow> ?db = db(''loan'' := c, ''book'' := c'))"
      by blast
    let ?loan' = "loan(''status'' \<mapsto> VStr ''returned'', ''return_date'' \<mapsto> VTime t)"
    let ?P = "\<lambda>k. \<lambda>(lk, l). l ''status'' \<noteq> Some (VStr ''returned'')
                              \<and> to_oid ((l::doc) ''book_id'') = Some (k::oid)"
    have sl: "?db ''loan'' = c" using r by (auto split: option.splits)
    have count: "length (filter (?P k) c) + (if ?P k (lk, loan) then 1 else 0)
                   = length (filter (?P k) (db ''loan'')) + (if ?P k (lk, ?loan') then 1 else 0)"
      for k
      by (rule update_one_count [OF c l set_fields_returned])
    have cnt: "borrowed_count ?db k + (if to_oid (loan ''book_id'') = Some k then 1 else 0)
                 = borrowed_count db k" for k
      using count [of k] st by (simp add: borrowed_count_def sl)
    show ?thesis
    proof (cases "to_oid (loan ''book_id'')")
      case None
      with r have "?db ''book'' = db ''book''" by simp
      moreover from cnt None have "borrowed_count ?db k = borrowed_count db k" for k by simp
      ultimately show ?thesis using inv by (simp add: copies_consistent_def)
    next
      case (Some bk)
      from cnt [of bk] Some have pos: "borrowed_count db bk = borrowed_count ?db bk + 1" by simp
      with inv have "bk \<in> fst ` set (db ''book'')"
        by (auto simp: copies_consistent_def)
      then obtain book where m: "(bk, book) \<in> set (db ''book'')" by auto
      have ddb: "distinct (map fst (db ''book''))"
        using inv by (simp add: copies_consistent_def)
      from m have b: "find_one (db ''book'') bk = Some book"
        by (simp add: find_one_distinct [OF ddb])
      from copies_consistent_book [OF inv m] obtain total a where
        ta: "book ''copies_total'' = Some (VInt total)" "book ''copies_available'' = Some (VInt a)"
            "0 \<le> a" "a + int (borrowed_count db bk) = total"
        by blast
      have inc: "inc_field ''copies_available'' 1 book
                   = Some (book(''copies_available'' \<mapsto> VInt (a + 1)))"
        using ta(2) by (simp add: inc_field_def)
      from update_one_present [of "db ''book''" bk book "inc_field ''copies_available'' 1", OF b inc]
      obtain c' where c': "update_one (db ''book'') bk (inc_field ''copies_available'' 1) = Some c'"
        by blast
      with r Some have sb: "?db ''book'' = c'" by simp
      have keys: "map fst c' = map fst (db ''book'')" by (rule update_one_keys [OF c'])
      then have keys': "fst ` set c' = fst ` set (db ''book'')" by (metis set_map)
      have dc: "distinct (map fst c')" using ddb keys by simp
      have fc: "find_one c' k = (if k = bk then Some (book(''copies_available'' \<mapsto> VInt (a + 1)))
                                else find_one (db ''book'') k)" for k
        using update_one_find_one [OF c', of k] b inc by simp
      have other: "borrowed_count ?db k = borrowed_count db k" if "k \<noteq> bk" for k
        using cnt [of k] Some that by simp
      show ?thesis
        unfolding copies_consistent_def
      proof (intro conjI)
        show "distinct (map fst (?db ''book''))" using dc by (simp add: sb)
        show "\<forall>k. k \<notin> fst ` set (?db ''book'') \<longrightarrow> borrowed_count ?db k = 0"
        proof (intro allI impI)
          fix k
          assume "k \<notin> fst ` set (?db ''book'')"
          then have k: "k \<notin> fst ` set (db ''book'')" by (simp add: sb keys')
          with m have "k \<noteq> bk" by force
          moreover from k inv have "borrowed_count db k = 0" by (simp add: copies_consistent_def)
          ultimately show "borrowed_count ?db k = 0" by (simp add: other)
        qed
        show "\<forall>(k, b') \<in> set (?db ''book'').
              \<exists>total available.
                b' ''copies_total'' = Some (VInt total)
              \<and> b' ''copies_available'' = Some (VInt available)
              \<and> 0 \<le> available
              \<and> available + int (borrowed_count ?db k) = total"
        proof (clarify)
          fix k b'
          assume "(k, b') \<in> set (?db ''book'')"
          then have f: "find_one c' k = Some b'"
            by (simp add: sb find_one_distinct [OF dc])
          show "\<exists>total available.
                b' ''copies_total'' = Some (VInt total)
              \<and> b' ''copies_available'' = Some (VInt available)
              \<and> 0 \<le> available
              \<and> available + int (borrowed_count ?db k) = total"
          proof (cases "k = bk")
            case True
            with f fc have "b' = book(''copies_available'' \<mapsto> VInt (a + 1))" by simp
            with ta pos True show ?thesis by simp
          next
            case False
            with f fc have "(k, b') \<in> set (db ''book'')"
              by (simp add: find_one_distinct [OF ddb])
            from copies_consistent_book [OF inv this] False show ?thesis by (simp add: other)
          qed
        qed
      qed
    qed
  qed
qed

lemma copies_consistent_handle:
  "copies_consistent db \<Longrightarrow> nonneg_total r \<Longrightarrow> copies_consistent (handle db r)"
  by (cases r)
     (simp_all add: copies_consistent_add_book copies_consistent_add_member
        copies_consistent_create_loan copies_consistent_return_book)

lemma copies_consistent_run:
  "copies_consistent db \<Longrightarrow> list_all nonneg_total rs \<Longrightarrow> copies_consistent (run db rs)"
  unfolding run_def by (induction rs arbitrary: db) (auto simp: copies_consistent_handle)

text \<open>
  From the empty store, requests that create books with a non-negative \<^verbatim>\<open>copies_total\<close>
  keep \<open>0 \<le> copies_available \<le> copies_total\<close> in every book.
\<close>

lemma copies_in_range:
  assumes "list_all nonneg_total rs" and "(k, b) \<in> set (run empty_db rs ''book'')"
  shows "\<exists>total available.
           b ''copies_total'' = Some (VInt total) \<and> b ''copies_available'' = Some (VInt available)
         \<and> 0 \<le> available \<and> available \<le> total"
proof -
  have "copies_consistent (run empty_db rs)"
    by (rule copies_consistent_run [OF copies_consistent_empty assms(1)])
  from copies_consistent_book [OF this assms(2)] show ?thesis
    by fastforce
qed

end
